theory Spec2Isabelle
  imports Complex_Main "HOL-Library.AList"
begin

section \<open>Tabular Q-learning agents for traffic lights\<close>

text \<open>
  A shallow embedding of \<^verbatim>\<open>simulation/qlearning.py\<close>,
  \<^verbatim>\<open>simulation/standard_simulation.py\<close>, \<^verbatim>\<open>utils/sumo_utils.py\<close>,
  \<^verbatim>\<open>utils/comparison.py\<close> and the setup loop of \<^verbatim>\<open>utils/grid_search.py\<close>.

  Conventions. Python floats are modelled as reals: rounding is not represented, and
  overflow and NaN are represented where they decide what the program does, in the
  softmax of \<^verbatim>\<open>choose_action\<close>. Python ints are \<open>int\<close>. A raised exception is the value \<open>Inl err\<close>;
  nothing in the agent or in \<^verbatim>\<open>run_simulation\<close> catches an exception (the grid
  search catches it around a whole run, whose agents are then dropped), so a raise ends
  the run and no state of an agent is observed after it. Outcomes of the pseudo-random
  generator are explicit arguments.
\<close>

subsection \<open>Values\<close>

datatype py_error = ValueError | IndexError | KeyError | NameError | ZeroDivisionError

type_synonym state = "int list"
type_synonym action = int
type_synonym transition = "state \<times> action \<times> real \<times> state"
type_synonym qtable = "state \<times> action \<rightharpoonup> real"

text \<open>\<^verbatim>\<open>range(n)\<close> as a list of Python ints.\<close>

definition py_range :: "nat \<Rightarrow> int list" where
  "py_range n = map int [0..<n]"

text \<open>\<^verbatim>\<open>max(xs)\<close> on a list: \<^verbatim>\<open>ValueError\<close> on the empty list.\<close>

definition py_max :: "real list \<Rightarrow> py_error + real" where
  "py_max xs = (case xs of [] \<Rightarrow> Inl ValueError | y # ys \<Rightarrow> Inr (fold max ys y))"

text \<open>\<^verbatim>\<open>int(x)\<close> on a float truncates toward zero.\<close>

definition py_int :: "real \<Rightarrow> int" where
  "py_int x = (if 0 \<le> x then \<lfloor>x\<rfloor> else \<lceil>x\<rceil>)"

text \<open>\<^verbatim>\<open>q_table.get(k, 0)\<close>.\<close>

definition q_get :: "qtable \<Rightarrow> state \<times> action \<Rightarrow> real" where
  "q_get q k = (case q k of None \<Rightarrow> 0 | Some v \<Rightarrow> v)"

subsection \<open>The bounded deque\<close>

text \<open>
  \<^verbatim>\<open>collections.deque(maxlen=n)\<close>: \<^verbatim>\<open>append\<close> adds on the right and, when
  the deque has become longer than \<open>maxlen\<close>, removes one element on the left.
\<close>

record 'a deque =
  maxlen :: nat
  items :: "'a list"

definition deque_new :: "nat \<Rightarrow> 'a deque" where
  "deque_new n = \<lparr>maxlen = n, items = []\<rparr>"

definition deque_append :: "'a deque \<Rightarrow> 'a \<Rightarrow> 'a deque" where
  "deque_append d x =
     (let ys = items d @ [x]
      in d\<lparr>items := (if maxlen d < length ys then tl ys else ys)\<rparr>)"

subsection \<open>The agent\<close>

record agent =
  tl_id :: string
  phases :: "string list"
  controlled_lanes :: "string list"
  alpha :: real
  gamma :: real
  epsilon :: real
  min_epsilon :: real
  epsilon_decay :: real
  experience_size :: nat
  batch_size :: nat
  q_table :: qtable
  experience :: "transition deque"
  steps_since_last_change :: int
  temperature :: real
  min_temperature :: real
  temperature_decay :: real

text \<open>
  \<^verbatim>\<open>random.sample(population, k)\<close>: the outcome is a list of \<open>k\<close> distinct
  positions of the population; the elements at these positions are returned in that order.
  \<open>valid_sample\<close> says which lists of positions the generator can give.
\<close>

definition valid_sample :: "nat \<Rightarrow> nat \<Rightarrow> nat list \<Rightarrow> bool" where
  "valid_sample n k idxs \<longleftrightarrow> length idxs = k \<and> distinct idxs \<and> list_all (\<lambda>i. i < n) idxs"

definition random_sample :: "nat list \<Rightarrow> 'a list \<Rightarrow> 'a list" where
  "random_sample idxs population = map (\<lambda>i. population ! i) idxs"

text \<open>The body of the loop over the batch in \<^verbatim>\<open>update_q_table\<close>.\<close>

definition q_step :: "agent \<Rightarrow> qtable \<Rightarrow> transition \<Rightarrow> py_error + qtable" where
  "q_step ag q t =
     (case t of (s, a, r, s_new) \<Rightarrow>
        let old_value = q_get q (s, a)
        in case py_max (map (\<lambda>a_new. q_get q (s_new, a_new)) (py_range (length (phases ag)))) of
             Inl e \<Rightarrow> Inl e
           | Inr next_max \<Rightarrow>
               Inr (q((s, a) \<mapsto> old_value + alpha ag * (r + gamma ag * next_max - old_value))))"

fun q_batch :: "agent \<Rightarrow> qtable \<Rightarrow> transition list \<Rightarrow> py_error + qtable" where
  "q_batch ag q [] = Inr q"
| "q_batch ag q (t # ts) =
     (case q_step ag q t of Inl e \<Rightarrow> Inl e | Inr q' \<Rightarrow> q_batch ag q' ts)"

definition update_q_table ::
  "agent \<Rightarrow> nat list \<Rightarrow> state \<Rightarrow> action \<Rightarrow> real \<Rightarrow> state \<Rightarrow> py_error + agent" where
  "update_q_table ag idxs st a reward new_state =
     (let ag1 = ag\<lparr>experience := deque_append (experience ag) (st, a, reward, new_state)\<rparr>
      in if batch_size ag1 \<le> length (items (experience ag1)) then
           (case q_batch ag1 (q_table ag1) (random_sample idxs (items (experience ag1))) of
              Inl e \<Rightarrow> Inl e
            | Inr q' \<Rightarrow>
                Inr (ag1\<lparr>q_table := q',
                         steps_since_last_change := steps_since_last_change ag1 + 1\<rparr>))
         else Inr (ag1\<lparr>steps_since_last_change := steps_since_last_change ag1 + 1\<rparr>))"

subsection \<open>The simulator's telemetry\<close>

text \<open>
  What the TraCI queries used by the program return at one moment of the simulation.
  The simulator is external; each query is a field of the snapshot.
\<close>

record sumo =
  tl_id_list :: "string list"
  program_phases :: "string \<Rightarrow> string list"
  tl_controlled_lanes :: "string \<Rightarrow> string list"
  lane_vehicle_ids :: "string \<Rightarrow> string list"
  lane_halting_number :: "string \<Rightarrow> int"
  lane_mean_speed :: "string \<Rightarrow> real"
  lane_vehicle_number :: "string \<Rightarrow> int"
  vehicle_id_list :: "string list"
  vehicle_speed :: "string \<Rightarrow> real"
  vehicle_waiting_time :: "string \<Rightarrow> real"
  vehicle_stop_state :: "string \<Rightarrow> int"

text \<open>\<^verbatim>\<open>sumo_utils.get_controlled_lanes\<close>, \<^verbatim>\<open>get_traffic_lights\<close>,
  \<^verbatim>\<open>get_traffic_light_phases\<close>.\<close>

definition get_controlled_lanes :: "sumo \<Rightarrow> string \<Rightarrow> string list" where
  "get_controlled_lanes env tid = tl_controlled_lanes env tid"

definition get_traffic_lights :: "sumo \<Rightarrow> string list" where
  "get_traffic_lights env = tl_id_list env"

definition get_traffic_light_phases :: "sumo \<Rightarrow> string \<Rightarrow> string list" where
  "get_traffic_light_phases env tid = program_phases env tid"

text \<open>What the program prints.\<close>

datatype message =
    NoApproaches string
  | NoControlledLanes string
  | AgentInitialised string nat
  | TripsLoaded nat string
  | EpisodeStart nat nat
  | StepProgress nat nat nat real
  | EpisodeDone nat real nat
  | StandardProgress nat nat nat real
  | GridProgress nat int "real option" "real option"

subsection \<open>Construction\<close>

text \<open>
  \<^verbatim>\<open>TrafficLightQLearning.__init__\<close>. The lane list given by the caller is
  overwritten by the simulator's answer; a warning is printed when that answer is empty.
\<close>

record hyper =
  h_alpha :: real
  h_gamma :: real
  h_epsilon :: real
  h_min_epsilon :: real
  h_epsilon_decay :: real

definition default_hyper :: hyper where
  "default_hyper =
     \<lparr>h_alpha = 0.1, h_gamma = 0.9, h_epsilon = 0.2, h_min_epsilon = 0.01,
      h_epsilon_decay = 0.995\<rparr>"

definition new_agent ::
  "sumo \<Rightarrow> string \<Rightarrow> string list \<Rightarrow> string list \<Rightarrow> hyper \<Rightarrow> agent \<times> message list" where
  "new_agent env tid ps lanes h =
     (let ag = \<lparr>tl_id = tid, phases = ps, controlled_lanes = lanes,
                alpha = h_alpha h, gamma = h_gamma h, epsilon = h_epsilon h,
                min_epsilon = h_min_epsilon h, epsilon_decay = h_epsilon_decay h,
                experience_size = 2000, batch_size = 64,
                q_table = Map.empty,
                experience = deque_new 2000,
                steps_since_last_change = 0,
                temperature = 1.0, min_temperature = 0.1, temperature_decay = 0.995\<rparr>;
          ag' = ag\<lparr>controlled_lanes := get_controlled_lanes env tid\<rparr>
      in (ag', if controlled_lanes ag' = [] then [NoApproaches tid] else []))"

subsection \<open>State and reward\<close>

definition lane_state :: "sumo \<Rightarrow> string \<Rightarrow> real list" where
  "lane_state env lane =
     (let vehicles = lane_vehicle_ids env lane;
          waiting = length (filter (\<lambda>v. vehicle_speed env v < 0.1) vehicles);
          waiting_time = sum_list (map (vehicle_waiting_time env) vehicles)
                           / real (max (length vehicles) 1);
          queue_length = lane_halting_number env lane;
          speed = lane_mean_speed env lane
      in [real waiting, waiting_time, of_int queue_length, speed])"

definition get_state :: "sumo \<Rightarrow> agent \<Rightarrow> state" where
  "get_state env ag =
     map py_int (concat (map (lane_state env) (controlled_lanes ag))
                 @ [of_int (steps_since_last_change ag)])"

text \<open>The two loops of \<^verbatim>\<open>get_reward\<close>, with the accumulator \<open>reward\<close>.\<close>

definition long_wait :: "sumo \<Rightarrow> string \<Rightarrow> real \<Rightarrow> real" where
  "long_wait env v reward =
     (let waiting_time = vehicle_waiting_time env v
      in if 30 < waiting_time then reward - waiting_time * 0.01 else reward)"

definition lane_waiting :: "sumo \<Rightarrow> string \<Rightarrow> real \<Rightarrow> real" where
  "lane_waiting env lane reward =
     (let vehicles = lane_vehicle_ids env lane;
          waiting = length (filter (\<lambda>v. vehicle_speed env v < 0.1) vehicles)
      in fold (long_wait env) vehicles (reward - real waiting * 0.1))"

definition lane_throughput :: "sumo \<Rightarrow> string \<Rightarrow> real \<Rightarrow> real" where
  "lane_throughput env lane reward =
     (let departed = lane_vehicle_number env lane in reward + of_int departed * 0.2)"

definition get_reward :: "sumo \<Rightarrow> agent \<Rightarrow> real" where
  "get_reward env ag =
     (let r1 = fold (lane_waiting env) (controlled_lanes ag) 0;
          r2 = fold (lane_throughput env) (controlled_lanes ag) r1
      in if steps_since_last_change ag < 10 then r2 - 0.5 else r2)"

subsection \<open>Action selection\<close>

text \<open>
  The outcomes of the three random draws of one \<^verbatim>\<open>choose_action\<close> call:
  \<^verbatim>\<open>np.random.random()\<close>, \<^verbatim>\<open>np.random.randint(n)\<close>, and the uniform
  number that \<^verbatim>\<open>np.random.choice\<close> looks up in the cumulative distribution.
\<close>

record draws =
  coin :: real
  pick :: int
  spin :: real

definition draws_ok :: "nat \<Rightarrow> draws \<Rightarrow> bool" where
  "draws_ok n d \<longleftrightarrow>
     0 \<le> coin d \<and> coin d < 1 \<and> 0 \<le> pick d \<and> pick d < int n \<and> 0 \<le> spin d \<and> spin d < 1"

text \<open>\<^verbatim>\<open>np.random.randint(n)\<close> raises \<^verbatim>\<open>ValueError\<close> when \<open>n\<close> is 0.\<close>

definition np_randint :: "int \<Rightarrow> nat \<Rightarrow> py_error + int" where
  "np_randint k n = (if n = 0 then Inl ValueError else Inr k)"

text \<open>
  The softmax is computed in double precision, and there the limits of the format decide
  what \<^verbatim>\<open>choose_action\<close> does. A value of the softmax is a finite number,
  \<open>+inf\<close> or \<open>nan\<close>. \<^verbatim>\<open>np.exp\<close> gives 0 when the exponential is at most
  \<open>2\<^sup>-\<^sup>1\<^sup>0\<^sup>7\<^sup>5\<close>, half of the smallest positive double, and \<open>+inf\<close> when it reaches
  \<open>2\<^sup>1\<^sup>0\<^sup>2\<^sup>4 - 2\<^sup>9\<^sup>7\<^sup>0\<close>, half an ulp above the largest double; between these bounds
  the exponential is taken as the real number (rounding is not represented). The values
  that occur are not negative.
\<close>

datatype npfloat = Finite real | PosInf | NaN

definition overflow_bound :: real where
  "overflow_bound = 2 ^ 1024 - 2 ^ 970"

definition underflow_bound :: real where
  "underflow_bound = 1 / 2 ^ 1075"

definition np_exp :: "real \<Rightarrow> npfloat" where
  "np_exp x =
     (if exp x \<le> underflow_bound then Finite 0
      else if overflow_bound \<le> exp x then PosInf
      else Finite (exp x))"

fun np_add :: "npfloat \<Rightarrow> npfloat \<Rightarrow> npfloat" where
  "np_add (Finite a) (Finite b) = (if overflow_bound \<le> a + b then PosInf else Finite (a + b))"
| "np_add NaN y = NaN"
| "np_add x NaN = NaN"
| "np_add PosInf y = PosInf"
| "np_add x PosInf = PosInf"

text \<open>\<^verbatim>\<open>exp_q.sum()\<close>.\<close>

definition np_sum :: "npfloat list \<Rightarrow> npfloat" where
  "np_sum xs = fold (\<lambda>x acc. np_add acc x) xs (Finite 0)"

text \<open>
  \<^verbatim>\<open>exp_q / exp_q.sum()\<close>, element by element: \<open>0 / 0\<close> and \<open>inf / inf\<close> are
  \<open>nan\<close> (NumPy warns and goes on), a positive number over 0 is \<open>inf\<close>.
\<close>

fun np_divide :: "npfloat \<Rightarrow> npfloat \<Rightarrow> npfloat" where
  "np_divide (Finite a) (Finite b) =
     (if b = 0 then (if a = 0 then NaN else PosInf) else Finite (a / b))"
| "np_divide (Finite a) PosInf = Finite 0"
| "np_divide PosInf (Finite b) = PosInf"
| "np_divide PosInf PosInf = NaN"
| "np_divide NaN y = NaN"
| "np_divide x NaN = NaN"

text \<open>The probabilities as real numbers, when all of them are finite.\<close>

fun finite_values :: "npfloat list \<Rightarrow> real list option" where
  "finite_values [] = Some []"
| "finite_values (Finite a # xs) =
     (case finite_values xs of None \<Rightarrow> None | Some ys \<Rightarrow> Some (a # ys))"
| "finite_values (x # xs) = None"

fun cumsum :: "real \<Rightarrow> real list \<Rightarrow> real list" where
  "cumsum acc [] = []"
| "cumsum acc (x # xs) = (acc + x) # cumsum (acc + x) xs"

definition np_atol :: real where
  "np_atol = 1 / 2 ^ 26"

text \<open>
  \<^verbatim>\<open>np.random.choice(n, p=probs)\<close>: \<^verbatim>\<open>ValueError\<close> when \<open>n\<close> is 0, when
  \<open>probs\<close> has another length, holds a \<open>nan\<close> or an \<open>inf\<close>, has a negative entry,
  or does not sum to 1 (within the square root of the machine epsilon); otherwise the
  position of the uniform draw in the normalised cumulative sums (\<^verbatim>\<open>searchsorted\<close>,
  side right).
\<close>

definition np_choice :: "real \<Rightarrow> nat \<Rightarrow> npfloat list \<Rightarrow> py_error + int" where
  "np_choice u n probs =
     (if n = 0 then Inl ValueError
      else if length probs \<noteq> n then Inl ValueError
      else case finite_values probs of
             None \<Rightarrow> Inl ValueError
           | Some p \<Rightarrow>
               if list_ex (\<lambda>x. x < 0) p then Inl ValueError
               else if np_atol < \<bar>sum_list p - 1\<bar> then Inl ValueError
               else let cdf = cumsum 0 p;
                        cdf' = map (\<lambda>c. c / last cdf) cdf
                    in Inr (int (length (takeWhile (\<lambda>c. c \<le> u) cdf'))))"

definition choose_action :: "agent \<Rightarrow> draws \<Rightarrow> state \<Rightarrow> py_error + (action \<times> agent)" where
  "choose_action ag d st =
     (let ag1 = ag\<lparr>epsilon := max (min_epsilon ag) (epsilon ag * epsilon_decay ag)\<rparr>;
          ag2 = ag1\<lparr>temperature :=
                      max (min_temperature ag1) (temperature ag1 * temperature_decay ag1)\<rparr>
      in if coin d < epsilon ag2 then
           (case np_randint (pick d) (length (phases ag2)) of
              Inl e \<Rightarrow> Inl e
            | Inr k \<Rightarrow> Inr (k, ag2))
         else
           (let q_values = map (\<lambda>a. q_get (q_table ag2) (st, a)) (py_range (length (phases ag2)));
                exp_q = map (\<lambda>q. np_exp (q / temperature ag2)) q_values;
                total = np_sum exp_q;
                probs = map (\<lambda>e. np_divide e total) exp_q
            in case np_choice (spin d) (length (phases ag2)) probs of
                 Inl e \<Rightarrow> Inl e
               | Inr k \<Rightarrow> Inr (k, ag2)))"

subsection \<open>Agent operations in sequence\<close>

text \<open>
  The four methods of an agent as operations on its state. \<^verbatim>\<open>get_state\<close> and
  \<^verbatim>\<open>get_reward\<close> assign to no attribute: the agent is returned as it was.
\<close>

datatype agent_op =
    GetState sumo
  | GetReward sumo
  | ChooseAction draws state
  | UpdateQTable "nat list" state action real state

fun is_update :: "agent_op \<Rightarrow> bool" where
  "is_update (UpdateQTable idxs st a r st') = True"
| "is_update _ = False"

fun apply_op :: "agent \<Rightarrow> agent_op \<Rightarrow> py_error + agent" where
  "apply_op ag (GetState env) = (let st = get_state env ag in Inr ag)"
| "apply_op ag (GetReward env) = (let reward = get_reward env ag in Inr ag)"
| "apply_op ag (ChooseAction d st) =
     (case choose_action ag d st of Inl e \<Rightarrow> Inl e | Inr (k, ag') \<Rightarrow> Inr ag')"
| "apply_op ag (UpdateQTable idxs st a r st') = update_q_table ag idxs st a r st'"

fun run_ops :: "agent \<Rightarrow> agent_op list \<Rightarrow> py_error + agent" where
  "run_ops ag [] = Inr ag"
| "run_ops ag (op # ops) =
     (case apply_op ag op of Inl e \<Rightarrow> Inl e | Inr ag' \<Rightarrow> run_ops ag' ops)"

text \<open>What the result of a call shows of the agent it leaves.\<close>

definition q_after :: "py_error + agent \<Rightarrow> state \<times> action \<Rightarrow> py_error + real" where
  "q_after res k = (case res of Inl e \<Rightarrow> Inl e | Inr ag \<Rightarrow> Inr (q_get (q_table ag) k))"

definition epsilon_after :: "py_error + (action \<times> agent) \<Rightarrow> py_error + real" where
  "epsilon_after res = (case res of Inl e \<Rightarrow> Inl e | Inr (k, ag) \<Rightarrow> Inr (epsilon ag))"

definition action_of :: "py_error + (action \<times> agent) \<Rightarrow> py_error + action" where
  "action_of res = (case res of Inl e \<Rightarrow> Inl e | Inr (k, ag) \<Rightarrow> Inr k)"

text \<open>
  What \<^verbatim>\<open>__init__\<close> fixes and no method changes: the buffer's capacity, the batch
  size, and the temperature schedule.
\<close>

definition agent_inv :: "agent \<Rightarrow> bool" where
  "agent_inv ag \<longleftrightarrow>
     experience_size ag = 2000 \<and> batch_size ag = 64 \<and>
     maxlen (experience ag) = 2000 \<and> length (items (experience ag)) \<le> 2000 \<and>
     min_temperature ag = 0.1 \<and> temperature_decay ag = 0.995 \<and>
     0.1 \<le> temperature ag \<and> temperature ag \<le> 1"

text \<open>An exploration schedule that decays: the rate starts at or above its floor.\<close>

definition schedule_ok :: "agent \<Rightarrow> bool" where
  "schedule_ok ag \<longleftrightarrow>
     0 \<le> epsilon_decay ag \<and> epsilon_decay ag \<le> 1 \<and>
     0 \<le> epsilon ag \<and> min_epsilon ag \<le> epsilon ag"

text \<open>
  The reward as a sum over the controlled lanes: the penalty for stalled vehicles, the
  penalty for vehicles waiting longer than 30, the bonus for the vehicles on the lane,
  and the flat penalty of the first ten steps.
\<close>

definition lane_reward :: "sumo \<Rightarrow> string \<Rightarrow> real" where
  "lane_reward env lane =
     - 0.1 * real (length (filter (\<lambda>v. vehicle_speed env v < 0.1) (lane_vehicle_ids env lane)))
     + (\<Sum>v\<leftarrow>lane_vehicle_ids env lane.
          if 30 < vehicle_waiting_time env v then - 0.01 * vehicle_waiting_time env v else 0)
     + 0.2 * of_int (lane_vehicle_number env lane)"

definition reward_sum :: "sumo \<Rightarrow> agent \<Rightarrow> real" where
  "reward_sum env ag =
     (\<Sum>lane\<leftarrow>controlled_lanes ag. lane_reward env lane)
     + (if steps_since_last_change ag < 10 then - 0.5 else 0)"

text \<open>One Q-learning update of a value \<open>x\<close> whose successor value is \<open>x\<close> itself.\<close>

definition bellman :: "real \<Rightarrow> real \<Rightarrow> real \<Rightarrow> real \<Rightarrow> real" where
  "bellman al ga r x = x + al * (r + ga * x - x)"

section \<open>The orchestrator\<close>

subsection \<open>The simulator as a state machine\<close>

text \<open>
  The simulator and the files it reads and writes are external. Their state is a value
  of a type \<open>'w\<close>; the TraCI calls are the functions of an \<open>engine\<close>, and
  \<open>observe\<close> gives the telemetry of a state. Failures of the adapter itself (a closed
  connection, a missing file) are not modelled. Every call the program makes is also
  appended to a log.
\<close>

record 'w engine =
  traci_start :: "string list \<Rightarrow> 'w \<Rightarrow> 'w"
  traci_close :: "'w \<Rightarrow> 'w"
  simulation_step :: "'w \<Rightarrow> 'w"
  set_phase :: "string \<Rightarrow> action \<Rightarrow> 'w \<Rightarrow> 'w"
  save_state :: "string \<Rightarrow> 'w \<Rightarrow> 'w"
  load_state :: "string \<Rightarrow> 'w \<Rightarrow> 'w"
  count_trips :: "string \<Rightarrow> 'w \<Rightarrow> nat"
  observe :: "'w \<Rightarrow> sumo"

datatype event =
    TraciStart "string list"
  | TraciClose
  | SimulationStep
  | SetPhase string action
  | SaveState string
  | LoadState string
  | ParseTrips string
  | Print message

record 'w sim =
  world :: 'w
  log :: "event list"

definition emit :: "event \<Rightarrow> 'w sim \<Rightarrow> 'w sim" where
  "emit e s = s\<lparr>log := log s @ [e]\<rparr>"

definition initialize_simulation :: "'w engine \<Rightarrow> string \<Rightarrow> string \<Rightarrow> 'w sim \<Rightarrow> 'w sim" where
  "initialize_simulation eng net_file trips_file s =
     (let sumo_cmd = [''sumo'', ''-n'', net_file, ''--route-files'', trips_file,
                      ''--quit-on-end'', ''--ignore-route-errors'', ''--no-warnings'']
      in emit (TraciStart sumo_cmd) (s\<lparr>world := traci_start eng sumo_cmd (world s)\<rparr>))"

definition load_trips :: "'w engine \<Rightarrow> string \<Rightarrow> 'w sim \<Rightarrow> nat \<times> 'w sim" where
  "load_trips eng trips_file s = (count_trips eng trips_file (world s), emit (ParseTrips trips_file) s)"

definition save_network_state :: "'w engine \<Rightarrow> string \<Rightarrow> 'w sim \<Rightarrow> 'w sim" where
  "save_network_state eng filename s =
     emit (SaveState filename) (s\<lparr>world := save_state eng filename (world s)\<rparr>)"

definition load_network_state :: "'w engine \<Rightarrow> string \<Rightarrow> 'w sim \<Rightarrow> 'w sim" where
  "load_network_state eng filename s =
     emit (LoadState filename) (s\<lparr>world := load_state eng filename (world s)\<rparr>)"

definition close_simulation :: "'w engine \<Rightarrow> 'w sim \<Rightarrow> 'w sim" where
  "close_simulation eng s = emit TraciClose (s\<lparr>world := traci_close eng (world s)\<rparr>)"

definition traci_simulationStep :: "'w engine \<Rightarrow> 'w sim \<Rightarrow> 'w sim" where
  "traci_simulationStep eng s = emit SimulationStep (s\<lparr>world := simulation_step eng (world s)\<rparr>)"

definition traci_setPhase :: "'w engine \<Rightarrow> string \<Rightarrow> action \<Rightarrow> 'w sim \<Rightarrow> 'w sim" where
  "traci_setPhase eng tid a s = emit (SetPhase tid a) (s\<lparr>world := set_phase eng tid a (world s)\<rparr>)"

definition py_print :: "message \<Rightarrow> 'w sim \<Rightarrow> 'w sim" where
  "py_print m s = emit (Print m) s"

subsection \<open>Per-vehicle telemetry and the statistics of a step\<close>

record vehicle =
  v_waiting_time :: real
  v_speed :: real
  v_stops :: int

type_synonym vehicle_data = "(string \<times> vehicle) list"

text \<open>\<^verbatim>\<open>sumo_utils.get_vehicle_data\<close>: a dict in insertion order.\<close>

definition get_vehicle_data :: "sumo \<Rightarrow> vehicle_data" where
  "get_vehicle_data env =
     fold (\<lambda>veh_id vd.
             AList.update veh_id
               \<lparr>v_waiting_time = vehicle_waiting_time env veh_id,
                v_speed = vehicle_speed env veh_id,
                v_stops = vehicle_stop_state env veh_id\<rparr> vd)
          (vehicle_id_list env) []"

record SimulationStats =
  waiting_times :: "real list"
  queue_lengths :: "int list"
  vehicle_speeds :: "real list"
  vehicle_counts :: "nat list"
  stops_count :: "int list"

definition new_stats :: SimulationStats where
  "new_stats = \<lparr>waiting_times = [], queue_lengths = [], vehicle_speeds = [],
                vehicle_counts = [], stops_count = []\<rparr>"

record step_sums =
  sum_waiting_time :: real
  sum_queue_length :: int
  sum_speed :: real
  sum_stops :: int

definition add_vehicle :: "string \<times> vehicle \<Rightarrow> step_sums \<Rightarrow> step_sums" where
  "add_vehicle kv cs =
     (case kv of (vehicle_id, data) \<Rightarrow>
        let cs1 = cs\<lparr>sum_waiting_time := sum_waiting_time cs + v_waiting_time data\<rparr>;
            cs2 = (if v_speed data < 0.1
                   then cs1\<lparr>sum_queue_length := sum_queue_length cs1 + 1\<rparr> else cs1);
            cs3 = cs2\<lparr>sum_speed := sum_speed cs2 + v_speed data\<rparr>
        in cs3\<lparr>sum_stops := sum_stops cs3 + v_stops data\<rparr>)"

definition current_stats :: "vehicle_data \<Rightarrow> step_sums" where
  "current_stats vd =
     fold add_vehicle vd
       \<lparr>sum_waiting_time = 0, sum_queue_length = 0, sum_speed = 0, sum_stops = 0\<rparr>"

text \<open>Python's \<^verbatim>\<open>x / n\<close>: \<^verbatim>\<open>ZeroDivisionError\<close> when \<open>n\<close> is 0.\<close>

definition py_div :: "real \<Rightarrow> nat \<Rightarrow> py_error + real" where
  "py_div x n = (if n = 0 then Inl ZeroDivisionError else Inr (x / real n))"

text \<open>
  The statistics of one step, as both \<^verbatim>\<open>run_standard_simulation\<close> and the
  Q-learning loop of \<^verbatim>\<open>run_simulation\<close> collect them.
\<close>

definition collect_stats :: "vehicle_data \<Rightarrow> SimulationStats \<Rightarrow> py_error + SimulationStats" where
  "collect_stats vd stats =
     (let cs = current_stats vd
      in if vd \<noteq> [] then
           (case py_div (sum_waiting_time cs) (length vd) of
              Inl e \<Rightarrow> Inl e
            | Inr mean_wait \<Rightarrow>
               (case py_div (sum_speed cs) (length vd) of
                  Inl e \<Rightarrow> Inl e
                | Inr mean_speed \<Rightarrow>
                    Inr (stats\<lparr>waiting_times := waiting_times stats @ [mean_wait],
                               queue_lengths := queue_lengths stats @ [sum_queue_length cs],
                               vehicle_speeds := vehicle_speeds stats @ [mean_speed],
                               vehicle_counts := vehicle_counts stats @ [length vd],
                               stops_count := stops_count stats @ [sum_stops cs]\<rparr>)))
         else Inr stats)"

text \<open>The reading of the specification: a step without vehicles records zeros.\<close>

definition stats_with_zeros :: "SimulationStats \<Rightarrow> SimulationStats" where
  "stats_with_zeros stats =
     stats\<lparr>waiting_times := waiting_times stats @ [0],
           queue_lengths := queue_lengths stats @ [0],
           vehicle_speeds := vehicle_speeds stats @ [0],
           vehicle_counts := vehicle_counts stats @ [0],
           stops_count := stops_count stats @ [0]\<rparr>"

subsection \<open>Setting up the agents\<close>

text \<open>
  \<^verbatim>\<open>qlearning_params\<close>: a dict of keyword arguments for the constructor, or
  \<^verbatim>\<open>None\<close>. It is used when it is not empty; what it leaves out keeps its default.
\<close>

record qparams =
  p_alpha :: "real option"
  p_gamma :: "real option"
  p_epsilon :: "real option"
  p_min_epsilon :: "real option"
  p_epsilon_decay :: "real option"

definition nonempty :: "qparams \<Rightarrow> bool" where
  "nonempty p \<longleftrightarrow>
     p_alpha p \<noteq> None \<or> p_gamma p \<noteq> None \<or> p_epsilon p \<noteq> None
     \<or> p_min_epsilon p \<noteq> None \<or> p_epsilon_decay p \<noteq> None"

definition or_default :: "'a option \<Rightarrow> 'a \<Rightarrow> 'a" where
  "or_default x d = (case x of None \<Rightarrow> d | Some v \<Rightarrow> v)"

definition hyper_of :: "qparams \<Rightarrow> hyper" where
  "hyper_of p =
     \<lparr>h_alpha = or_default (p_alpha p) (h_alpha default_hyper),
      h_gamma = or_default (p_gamma p) (h_gamma default_hyper),
      h_epsilon = or_default (p_epsilon p) (h_epsilon default_hyper),
      h_min_epsilon = or_default (p_min_epsilon p) (h_min_epsilon default_hyper),
      h_epsilon_decay = or_default (p_epsilon_decay p) (h_epsilon_decay default_hyper)\<rparr>"

text \<open>The hyperparameters the constructor receives in \<^verbatim>\<open>run_simulation\<close>.\<close>

definition chosen_hyper :: "qparams option \<Rightarrow> hyper" where
  "chosen_hyper qp =
     (case qp of
        None \<Rightarrow> default_hyper
      | Some p \<Rightarrow> if nonempty p then hyper_of p else default_hyper)"

type_synonym agents = "(string \<times> agent) list"

text \<open>The body of the loop over the traffic lights in \<^verbatim>\<open>run_simulation\<close>.\<close>

definition setup_agent ::
  "sumo \<Rightarrow> qparams option \<Rightarrow> string \<Rightarrow> agents \<times> message list \<Rightarrow> agents \<times> message list" where
  "setup_agent env qlearning_params tid acc =
     (case acc of (agents, out) \<Rightarrow>
        let ps = get_traffic_light_phases env tid;
            lanes = get_controlled_lanes env tid
        in if lanes = [] then (agents, out @ [NoControlledLanes tid])
           else
             (case (case qlearning_params of
                      None \<Rightarrow> new_agent env tid ps lanes default_hyper
                    | Some p \<Rightarrow>
                        if nonempty p then new_agent env tid ps lanes (hyper_of p)
                        else new_agent env tid ps lanes default_hyper) of
                (ag, warnings) \<Rightarrow>
                  (AList.update tid ag agents,
                   out @ warnings @ [AgentInitialised tid (length ps)])))"

definition setup_agents :: "sumo \<Rightarrow> qparams option \<Rightarrow> agents \<times> message list" where
  "setup_agents env qlearning_params =
     fold (setup_agent env qlearning_params) (get_traffic_lights env) ([], [])"

text \<open>The same loop in \<^verbatim>\<open>grid_search.run_simulation_with_params\<close>.\<close>

definition grid_setup_agent ::
  "sumo \<Rightarrow> real \<Rightarrow> real \<Rightarrow> real \<Rightarrow> real \<Rightarrow> string \<Rightarrow> agents \<times> message list
     \<Rightarrow> agents \<times> message list" where
  "grid_setup_agent env al ga eps eps_decay tid acc =
     (case acc of (agents, out) \<Rightarrow>
        let ps = get_traffic_light_phases env tid;
            lanes = get_controlled_lanes env tid
        in if lanes = [] then (agents, out)
           else
             (case new_agent env tid ps lanes
                     (default_hyper\<lparr>h_alpha := al, h_gamma := ga, h_epsilon := eps,
                                    h_epsilon_decay := eps_decay\<rparr>) of
                (ag, warnings) \<Rightarrow> (AList.update tid ag agents, out @ warnings)))"

definition grid_setup_agents ::
  "sumo \<Rightarrow> real \<Rightarrow> real \<Rightarrow> real \<Rightarrow> real \<Rightarrow> agents \<times> message list" where
  "grid_setup_agents env al ga eps eps_decay =
     fold (grid_setup_agent env al ga eps eps_decay) (get_traffic_lights env) ([], [])"

subsection \<open>The training loop\<close>

text \<open>
  A loop that stops at the first exception. An exception is kept with the simulator
  state and the log at the moment it is raised.
\<close>

fun fold_err :: "('a \<Rightarrow> 's \<Rightarrow> 'e + 's) \<Rightarrow> 'a list \<Rightarrow> 's \<Rightarrow> 'e + 's" where
  "fold_err f [] s = Inr s"
| "fold_err f (x # xs) s = (case f x s of Inl e \<Rightarrow> Inl e | Inr s' \<Rightarrow> fold_err f xs s')"

record 'w training =
  t_sim :: "'w sim"
  t_agents :: agents
  t_states :: "(string \<times> state) list"
  t_stats :: SimulationStats
  t_total_reward :: real
  t_vehicle_data :: "vehicle_data option"

text \<open>The outcomes of the random draws of one agent in one step.\<close>

type_synonym chance = "draws \<times> nat list"

text \<open>The body of the loop over \<^verbatim>\<open>agents.items()\<close> in one step.\<close>

definition agent_turn ::
  "'w engine \<Rightarrow> (string \<Rightarrow> chance) \<Rightarrow> string \<Rightarrow> 'w training
     \<Rightarrow> py_error \<times> 'w sim + 'w training" where
  "agent_turn eng rnd tid t =
     (case (map_of (t_agents t) tid, map_of (t_states t) tid) of
        (Some ag, Some st) \<Rightarrow>
          (case choose_action ag (fst (rnd tid)) st of
             Inl e \<Rightarrow> Inl (e, t_sim t)
           | Inr (a, ag1) \<Rightarrow>
               let s1 = traci_setPhase eng tid a (t_sim t);
                   env = observe eng (world s1);
                   new_state = get_state env ag1;
                   reward = get_reward env ag1
               in case update_q_table ag1 (snd (rnd tid)) st a reward new_state of
                    Inl e \<Rightarrow> Inl (e, s1)
                  | Inr ag2 \<Rightarrow>
                      Inr (t\<lparr>t_sim := s1,
                             t_agents := AList.update tid ag2 (t_agents t),
                             t_states := AList.update tid new_state (t_states t),
                             t_total_reward := t_total_reward t + reward\<rparr>))
      | _ \<Rightarrow> Inl (KeyError, t_sim t))"

text \<open>The body of the loop over the steps of an episode.\<close>

definition training_step ::
  "'w engine \<Rightarrow> (nat \<Rightarrow> string \<Rightarrow> chance) \<Rightarrow> nat \<Rightarrow> nat \<Rightarrow> 'w training
     \<Rightarrow> py_error \<times> 'w sim + 'w training" where
  "training_step eng rnd steps step t =
     (let vd = get_vehicle_data (observe eng (world (t_sim t)))
      in case collect_stats vd (t_stats t) of
           Inl e \<Rightarrow> Inl (e, t_sim t)
         | Inr stats \<Rightarrow>
            (case fold_err (agent_turn eng (rnd step)) (map fst (t_agents t))
                    (t\<lparr>t_stats := stats, t_vehicle_data := Some vd\<rparr>) of
               Inl e \<Rightarrow> Inl e
             | Inr t1 \<Rightarrow>
                 let s1 = traci_simulationStep eng (t_sim t1);
                     s2 = (if (step + 1) mod 10 = 0
                           then py_print (StepProgress (step + 1) steps (length vd)
                                            (t_total_reward t1)) s1
                           else s1)
                 in Inr (t1\<lparr>t_sim := s2\<rparr>)))"

text \<open>The body of the loop over the episodes.\<close>

definition training_episode ::
  "'w engine \<Rightarrow> (nat \<Rightarrow> nat \<Rightarrow> string \<Rightarrow> chance) \<Rightarrow> nat \<Rightarrow> nat \<Rightarrow> nat \<Rightarrow> 'w training
     \<Rightarrow> py_error \<times> 'w sim + 'w training" where
  "training_episode eng rnd episodes steps episode t =
     (let s1 = py_print (EpisodeStart (episode + 1) episodes) (t_sim t);
          s2 = load_network_state eng ''Input/initial_state.xml'' s1;
          env = observe eng (world s2);
          states = map (\<lambda>(tid, ag). (tid, get_state env ag)) (t_agents t);
          t1 = t\<lparr>t_sim := s2, t_states := states, t_total_reward := 0\<rparr>
      in case fold_err (training_step eng (rnd episode) steps) [0..<steps] t1 of
           Inl e \<Rightarrow> Inl e
         | Inr t2 \<Rightarrow>
            (case t_vehicle_data t2 of
               None \<Rightarrow> Inl (NameError, t_sim t2)
             | Some vd \<Rightarrow>
                 Inr (t2\<lparr>t_sim := py_print (EpisodeDone (episode + 1) (t_total_reward t2)
                                             (length vd)) (t_sim t2)\<rparr>)))"

text \<open>The \<^verbatim>\<open>'qlearning'\<close> branch of \<^verbatim>\<open>run_simulation\<close>.\<close>

definition run_qlearning ::
  "'w engine \<Rightarrow> (nat \<Rightarrow> nat \<Rightarrow> string \<Rightarrow> chance) \<Rightarrow> string \<Rightarrow> string \<Rightarrow> int \<Rightarrow> int
     \<Rightarrow> qparams option \<Rightarrow> 'w sim \<Rightarrow> (py_error + SimulationStats) \<times> 'w sim" where
  "run_qlearning eng rnd net_file trips_file episodes steps qlearning_params s =
     (let s1 = initialize_simulation eng net_file trips_file s;
          (num_vehicles, s2) = load_trips eng trips_file s1;
          s3 = py_print (TripsLoaded num_vehicles trips_file) s2;
          s4 = save_network_state eng ''Input/initial_state.xml'' s3;
          (agents, out) = setup_agents (observe eng (world s4)) qlearning_params;
          s5 = fold py_print out s4;
          t = \<lparr>t_sim = s5, t_agents = agents, t_states = [], t_stats = new_stats,
               t_total_reward = 0, t_vehicle_data = None\<rparr>
      in case fold_err (training_episode eng rnd (nat episodes) (nat steps))
                [0..<nat episodes] t of
           Inl (e, s') \<Rightarrow> (Inl e, s')
         | Inr t' \<Rightarrow> (Inr (t_stats t'), close_simulation eng (t_sim t')))"

subsection \<open>The fixed-timing run\<close>

record 'w standard =
  b_sim :: "'w sim"
  b_stats :: SimulationStats

definition standard_step ::
  "'w engine \<Rightarrow> nat \<Rightarrow> nat \<Rightarrow> 'w standard \<Rightarrow> py_error \<times> 'w sim + 'w standard" where
  "standard_step eng steps step b =
     (let vd = get_vehicle_data (observe eng (world (b_sim b)))
      in case collect_stats vd (b_stats b) of
           Inl e \<Rightarrow> Inl (e, b_sim b)
         | Inr stats \<Rightarrow>
             let s1 = traci_simulationStep eng (b_sim b)
             in if (step + 1) mod 100 = 0 then
                  (if waiting_times stats = [] then Inl (IndexError, s1)
                   else Inr \<lparr>b_sim = py_print (StandardProgress (step + 1) steps (length vd)
                                                 (last (waiting_times stats))) s1,
                             b_stats = stats\<rparr>)
                else Inr \<lparr>b_sim = s1, b_stats = stats\<rparr>)"

definition run_standard_simulation ::
  "'w engine \<Rightarrow> string \<Rightarrow> string \<Rightarrow> int \<Rightarrow> 'w sim \<Rightarrow> (py_error + SimulationStats) \<times> 'w sim" where
  "run_standard_simulation eng net_file trips_file steps s =
     (let s1 = initialize_simulation eng net_file trips_file s;
          (num_vehicles, s2) = load_trips eng trips_file s1;
          s3 = py_print (TripsLoaded num_vehicles trips_file) s2
      in case fold_err (standard_step eng (nat steps)) [0..<nat steps]
                \<lparr>b_sim = s3, b_stats = new_stats\<rparr> of
           Inl (e, s') \<Rightarrow> (Inl e, s')
         | Inr b \<Rightarrow> (Inr (b_stats b), close_simulation eng (b_sim b)))"

subsection \<open>The entry point\<close>

definition run_simulation ::
  "'w engine \<Rightarrow> (nat \<Rightarrow> nat \<Rightarrow> string \<Rightarrow> chance) \<Rightarrow> string \<Rightarrow> string \<Rightarrow> string \<Rightarrow> int \<Rightarrow> int
     \<Rightarrow> qparams option \<Rightarrow> 'w sim \<Rightarrow> (py_error + SimulationStats) \<times> 'w sim" where
  "run_simulation eng rnd simulation_type net_file trips_file episodes steps qlearning_params s =
     (if simulation_type = ''standard'' then
        run_standard_simulation eng net_file trips_file steps s
      else if simulation_type = ''qlearning'' then
        run_qlearning eng rnd net_file trips_file episodes steps qlearning_params s
      else (Inl ValueError, s))"

subsection \<open>The run of the grid search\<close>

text \<open>
  \<^verbatim>\<open>grid_search.run_simulation_with_params\<close>. \<^verbatim>\<open>np.mean\<close> of an empty list is
  \<open>nan\<close> (with a warning, not an exception): \<open>None\<close> here.
\<close>

definition np_mean :: "real list \<Rightarrow> real option" where
  "np_mean xs = (if xs = [] then None else Some (sum_list xs / real (length xs)))"

text \<open>The slice \<^verbatim>\<open>xs[-n:]\<close> for a Python int \<open>n\<close>.\<close>

definition py_tail :: "int \<Rightarrow> 'a list \<Rightarrow> 'a list" where
  "py_tail n xs =
     (if 0 < n then drop (length xs - nat n) xs
      else if n = 0 then xs
      else drop (nat (- n)) xs)"

record grid_stats =
  g_waiting_times :: "real list"
  g_queue_lengths :: "nat list"
  g_speeds :: "real list"
  g_vehicles :: "nat list"

record grid_means =
  m_waiting_time :: "real option"
  m_queue_length :: "real option"
  m_speed :: "real option"
  m_vehicles :: "real option"

definition grid_collect :: "vehicle_data \<Rightarrow> grid_stats \<Rightarrow> py_error + grid_stats" where
  "grid_collect vd stats =
     (if vd \<noteq> [] then
        (case py_div (sum_list (map (\<lambda>(k, data). v_waiting_time data) vd)) (length vd) of
           Inl e \<Rightarrow> Inl e
         | Inr waiting_time \<Rightarrow>
            (let queue_length = length (filter (\<lambda>(k, data). v_speed data < 0.1) vd)
             in case py_div (sum_list (map (\<lambda>(k, data). v_speed data) vd)) (length vd) of
                  Inl e \<Rightarrow> Inl e
                | Inr avg_speed \<Rightarrow>
                    Inr (stats\<lparr>g_waiting_times := g_waiting_times stats @ [waiting_time],
                               g_queue_lengths := g_queue_lengths stats @ [queue_length],
                               g_speeds := g_speeds stats @ [avg_speed],
                               g_vehicles := g_vehicles stats @ [length vd]\<rparr>)))
      else Inr stats)"

record 'w grid_run =
  g_sim :: "'w sim"
  g_agents :: agents
  g_states :: "(string \<times> state) list"
  g_stats :: grid_stats
  g_episode_reward :: real
  g_total_rewards :: "real list"

text \<open>The body of the loop over \<^verbatim>\<open>agents.items()\<close>, as the grid search has it.\<close>

definition grid_agent_turn ::
  "'w engine \<Rightarrow> (string \<Rightarrow> chance) \<Rightarrow> string \<Rightarrow> 'w grid_run
     \<Rightarrow> py_error \<times> 'w sim + 'w grid_run" where
  "grid_agent_turn eng rnd tid g =
     (case (map_of (g_agents g) tid, map_of (g_states g) tid) of
        (Some ag, Some st) \<Rightarrow>
          (case choose_action ag (fst (rnd tid)) st of
             Inl e \<Rightarrow> Inl (e, g_sim g)
           | Inr (a, ag1) \<Rightarrow>
               let s1 = traci_setPhase eng tid a (g_sim g);
                   env = observe eng (world s1);
                   new_state = get_state env ag1;
                   reward = get_reward env ag1
               in case update_q_table ag1 (snd (rnd tid)) st a reward new_state of
                    Inl e \<Rightarrow> Inl (e, s1)
                  | Inr ag2 \<Rightarrow>
                      Inr (g\<lparr>g_sim := s1,
                             g_agents := AList.update tid ag2 (g_agents g),
                             g_states := AList.update tid new_state (g_states g),
                             g_episode_reward := g_episode_reward g + reward\<rparr>))
      | _ \<Rightarrow> Inl (KeyError, g_sim g))"

definition grid_step ::
  "'w engine \<Rightarrow> (nat \<Rightarrow> string \<Rightarrow> chance) \<Rightarrow> nat \<Rightarrow> 'w grid_run
     \<Rightarrow> py_error \<times> 'w sim + 'w grid_run" where
  "grid_step eng rnd step g =
     (let vd = get_vehicle_data (observe eng (world (g_sim g)))
      in case grid_collect vd (g_stats g) of
           Inl e \<Rightarrow> Inl (e, g_sim g)
         | Inr stats \<Rightarrow>
            (case fold_err (grid_agent_turn eng (rnd step)) (map fst (g_agents g))
                    (g\<lparr>g_stats := stats\<rparr>) of
               Inl e \<Rightarrow> Inl e
             | Inr g1 \<Rightarrow> Inr (g1\<lparr>g_sim := traci_simulationStep eng (g_sim g1)\<rparr>)))"

definition grid_episode ::
  "'w engine \<Rightarrow> (nat \<Rightarrow> nat \<Rightarrow> string \<Rightarrow> chance) \<Rightarrow> int \<Rightarrow> int \<Rightarrow> nat \<Rightarrow> 'w grid_run
     \<Rightarrow> py_error \<times> 'w sim + 'w grid_run" where
  "grid_episode eng rnd episodes steps episode g =
     (let s1 = load_network_state eng ''Input/initial_state.xml'' (g_sim g);
          env = observe eng (world s1);
          states = map (\<lambda>(tid, ag). (tid, get_state env ag)) (g_agents g);
          g1 = g\<lparr>g_sim := s1, g_states := states, g_episode_reward := 0\<rparr>
      in case fold_err (grid_step eng (rnd episode)) [0..<nat steps] g1 of
           Inl e \<Rightarrow> Inl e
         | Inr g2 \<Rightarrow>
             let total_rewards = g_total_rewards g2 @ [g_episode_reward g2];
                 s2 = (if (episode + 1) mod 5 = 0
                       then py_print (GridProgress (episode + 1) episodes
                                        (np_mean (py_tail 5 total_rewards))
                                        (np_mean (py_tail steps (g_waiting_times (g_stats g2)))))
                              (g_sim g2)
                       else g_sim g2)
             in Inr (g2\<lparr>g_sim := s2, g_total_rewards := total_rewards\<rparr>))"

definition run_simulation_with_params ::
  "'w engine \<Rightarrow> (nat \<Rightarrow> nat \<Rightarrow> string \<Rightarrow> chance) \<Rightarrow> string \<Rightarrow> string
     \<Rightarrow> real \<Rightarrow> real \<Rightarrow> real \<Rightarrow> real \<Rightarrow> int \<Rightarrow> int \<Rightarrow> 'w sim
     \<Rightarrow> (py_error + real option \<times> grid_means) \<times> 'w sim" where
  "run_simulation_with_params eng rnd net_file trips_file al ga eps eps_decay episodes steps s =
     (let s1 = initialize_simulation eng net_file trips_file s;
          (num_vehicles, s2) = load_trips eng trips_file s1;
          s3 = py_print (TripsLoaded num_vehicles trips_file) s2;
          s4 = save_network_state eng ''Input/initial_state.xml'' s3;
          (agents, out) = grid_setup_agents (observe eng (world s4)) al ga eps eps_decay;
          s5 = fold py_print out s4;
          g = \<lparr>g_sim = s5, g_agents = agents, g_states = [],
               g_stats = \<lparr>g_waiting_times = [], g_queue_lengths = [], g_speeds = [],
                          g_vehicles = []\<rparr>,
               g_episode_reward = 0, g_total_rewards = []\<rparr>
      in case fold_err (grid_episode eng rnd episodes steps) [0..<nat episodes] g of
           Inl (e, s') \<Rightarrow> (Inl e, s')
         | Inr g' \<Rightarrow>
             (Inr (np_mean (g_total_rewards g'),
                   \<lparr>m_waiting_time = np_mean (g_waiting_times (g_stats g')),
                    m_queue_length = np_mean (map real (g_queue_lengths (g_stats g'))),
                    m_speed = np_mean (g_speeds (g_stats g')),
                    m_vehicles = np_mean (map real (g_vehicles (g_stats g')))\<rparr>),
              close_simulation eng (g_sim g')))"

subsection \<open>A network without its lane-less traffic lights\<close>

text \<open>
  The telemetry with the traffic lights that control no lane left out of the list of
  traffic lights, and a simulator observed in this way. Nothing else is changed.
\<close>

definition without_empty :: "sumo \<Rightarrow> sumo" where
  "without_empty env =
     env\<lparr>tl_id_list := filter (\<lambda>tid. get_controlled_lanes env tid \<noteq> []) (tl_id_list env)\<rparr>"

definition pruned :: "'w engine \<Rightarrow> 'w engine" where
  "pruned eng = eng\<lparr>observe := (\<lambda>w. without_empty (observe eng w))\<rparr>"

fun is_lane_warning :: "event \<Rightarrow> bool" where
  "is_lane_warning (Print (NoControlledLanes tid)) = True"
| "is_lane_warning e = False"

text \<open>
  Two simulator states after the same run: the same simulator, and the same calls and
  prints in the same order, the warnings about lane-less traffic lights apart.
\<close>

definition same_run :: "'w sim \<Rightarrow> 'w sim \<Rightarrow> bool" where
  "same_run s1 s2 \<longleftrightarrow>
     world s1 = world s2
     \<and> filter (\<lambda>e. \<not> is_lane_warning e) (log s1) = filter (\<lambda>e. \<not> is_lane_warning e) (log s2)"

definition same_training :: "'w training \<Rightarrow> 'w training \<Rightarrow> bool" where
  "same_training t1 t2 \<longleftrightarrow>
     same_run (t_sim t1) (t_sim t2) \<and> t_agents t1 = t_agents t2 \<and> t_states t1 = t_states t2
     \<and> t_stats t1 = t_stats t2 \<and> t_total_reward t1 = t_total_reward t2
     \<and> t_vehicle_data t1 = t_vehicle_data t2"

section \<open>Concrete instances\<close>

text \<open>
  A network with two traffic lights: \<open>A\<close> controls two lanes and has two phases,
  \<open>B\<close> controls no lane. Three vehicles are on the road; \<open>v1\<close> stands and has
  waited 42 seconds.
\<close>

definition demo_env :: sumo where
  "demo_env =
     \<lparr>tl_id_list = [''A'', ''B''],
      program_phases = (\<lambda>t. if t = ''A'' then [''GrGr'', ''rGrG''] else [''G'']),
      tl_controlled_lanes = (\<lambda>t. if t = ''A'' then [''n_0'', ''s_0''] else []),
      lane_vehicle_ids =
        (\<lambda>l. if l = ''n_0'' then [''v1'', ''v2''] else if l = ''s_0'' then [''v3''] else []),
      lane_halting_number = (\<lambda>l. if l = ''n_0'' then 1 else 0),
      lane_mean_speed = (\<lambda>l. if l = ''n_0'' then 2.5 else 13),
      lane_vehicle_number = (\<lambda>l. if l = ''n_0'' then 2 else if l = ''s_0'' then 1 else 0),
      vehicle_id_list = [''v1'', ''v2'', ''v3''],
      vehicle_speed = (\<lambda>v. if v = ''v1'' then 0 else if v = ''v2'' then 5 else 13),
      vehicle_waiting_time = (\<lambda>v. if v = ''v1'' then 42 else 0),
      vehicle_stop_state = (\<lambda>v. 0)\<rparr>"

text \<open>The same network before any vehicle has entered.\<close>

definition quiet_env :: sumo where
  "quiet_env =
     demo_env\<lparr>lane_vehicle_ids := (\<lambda>l. []), lane_halting_number := (\<lambda>l. 0),
              lane_mean_speed := (\<lambda>l. 13), lane_vehicle_number := (\<lambda>l. 0),
              vehicle_id_list := []\<rparr>"

definition demo_agent :: agent where
  "demo_agent = fst (new_agent demo_env ''A'' [''GrGr'', ''rGrG''] [] default_hyper)"

text \<open>An agent whose buffer is full: the oldest transition differs from the others.\<close>

definition full_agent :: agent where
  "full_agent =
     demo_agent\<lparr>experience :=
       \<lparr>maxlen = 2000, items = ([7], 1, 3, [8]) # replicate 1999 ([1], 0, 1, [1])\<rparr>\<rparr>"

text \<open>An agent with \<open>\<alpha> = 0.5\<close>, \<open>\<gamma> = 0.9\<close>, an empty Q-table and 64 copies of one
  transition in its buffer.\<close>

definition replay64_agent :: agent where
  "replay64_agent =
     (fst (new_agent demo_env ''A'' [''GrGr'', ''rGrG''] []
             (default_hyper\<lparr>h_alpha := 0.5, h_gamma := 0.9\<rparr>)))
       \<lparr>experience := \<lparr>maxlen = 2000, items = replicate 64 ([3], 0, 1, [3])\<rparr>\<rparr>"

text \<open>The same agent with 63 copies in its buffer.\<close>

definition replay63_agent :: agent where
  "replay63_agent =
     replay64_agent\<lparr>experience := \<lparr>maxlen = 2000, items = replicate 63 ([3], 0, 1, [3])\<rparr>\<rparr>"

text \<open>An agent configured with an exploration rate below the floor.\<close>

definition low_epsilon_agent :: agent where
  "low_epsilon_agent =
     fst (new_agent demo_env ''A'' [''GrGr'', ''rGrG''] []
            (default_hyper\<lparr>h_epsilon := 0.005\<rparr>))"

text \<open>An agent with one phase.\<close>

definition single_phase_agent :: agent where
  "single_phase_agent = fst (new_agent demo_env ''A'' [''G''] [] default_hyper)"

text \<open>
  A one-phase agent under lasting congestion: the value of its only action in state
  \<open>[4]\<close> has gone down to \<open>-1000\<close>.
\<close>

definition congested_agent :: agent where
  "congested_agent = single_phase_agent\<lparr>q_table := [([4], 0) \<mapsto> - 1000]\<rparr>"

definition explore_draws :: draws where
  "explore_draws = \<lparr>coin = 0, pick = 0, spin = 0.5\<rparr>"

definition exploit_draws :: draws where
  "exploit_draws = \<lparr>coin = 0.9, pick = 0, spin = 0.5\<rparr>"

text \<open>A simulator whose state is its telemetry and in which nothing moves.\<close>

definition still_engine :: "sumo engine" where
  "still_engine =
     \<lparr>traci_start = (\<lambda>cmd w. w), traci_close = (\<lambda>w. w), simulation_step = (\<lambda>w. w),
      set_phase = (\<lambda>tid a w. w), save_state = (\<lambda>f w. w), load_state = (\<lambda>f w. w),
      count_trips = (\<lambda>f w. 3), observe = (\<lambda>w. w)\<rparr>"

definition no_chance :: "nat \<Rightarrow> nat \<Rightarrow> string \<Rightarrow> chance" where
  "no_chance episode step tid = (explore_draws, [0..<64])"

definition fresh_sim :: "sumo sim" where
  "fresh_sim = \<lparr>world = demo_env, log = []\<rparr>"


section \<open>Properties of the agent\<close>

subsection \<open>The deque and the invariant of an agent\<close>

lemma deque_append_maxlen: "maxlen (deque_append d x) = maxlen d"
  by (simp add: deque_append_def Let_def)

lemma deque_append_items:
  "items (deque_append d x) =
     (if maxlen d < Suc (length (items d)) then tl (items d @ [x]) else items d @ [x])"
  by (simp add: deque_append_def Let_def)

lemma deque_append_length:
  "length (items d) \<le> maxlen d \<Longrightarrow> length (items (deque_append d x)) \<le> maxlen d"
  by (simp add: deque_append_items)

lemma deque_append_same:
  "set (items d) \<subseteq> {t} \<Longrightarrow> set (items (deque_append d t)) \<subseteq> {t}"
  by (cases "items d") (auto simp: deque_append_items dest: list.set_sel(2))

lemma update_q_table_Inr:
  assumes "update_q_table ag idxs st a r st' = Inr ag'"
  shows "ag' = ag\<lparr>experience := deque_append (experience ag) (st, a, r, st'),
                   q_table := q_table ag',
                   steps_since_last_change := steps_since_last_change ag + 1\<rparr>"
  using assms
  by (auto simp: update_q_table_def Let_def split: if_splits sum.splits)

lemma update_q_table_experience:
  "update_q_table ag idxs st a r st' = Inr ag' \<Longrightarrow>
   experience ag' = deque_append (experience ag) (st, a, r, st')"
  by (auto simp: update_q_table_def Let_def split: if_splits sum.splits)

lemma update_q_table_steps:
  "update_q_table ag idxs st a r st' = Inr ag' \<Longrightarrow>
   steps_since_last_change ag' = steps_since_last_change ag + 1"
  by (auto simp: update_q_table_def Let_def split: if_splits sum.splits)

lemma update_q_table_below_batch:
  "update_q_table ag idxs st a r st' = Inr ag' \<Longrightarrow>
   length (items (experience ag')) < batch_size ag \<Longrightarrow> q_table ag' = q_table ag"
  by (auto simp: update_q_table_def Let_def split: if_splits sum.splits)

lemma update_q_table_schedule:
  assumes "update_q_table ag idxs st a r st' = Inr ag'"
  shows "epsilon ag' = epsilon ag \<and> temperature ag' = temperature ag \<and>
         epsilon_decay ag' = epsilon_decay ag \<and> min_epsilon ag' = min_epsilon ag"
  using assms by (auto simp: update_q_table_def Let_def split: if_splits sum.splits)

lemma choose_action_Inr:
  assumes "choose_action ag d st = Inr (k, ag')"
  shows "ag' = ag\<lparr>epsilon := max (min_epsilon ag) (epsilon ag * epsilon_decay ag),
                   temperature :=
                     max (min_temperature ag) (temperature ag * temperature_decay ag)\<rparr>"
  using assms
  by (auto simp: choose_action_def Let_def split: if_splits sum.splits)

lemma choose_action_steps:
  "choose_action ag d st = Inr (k, ag') \<Longrightarrow>
   steps_since_last_change ag' = steps_since_last_change ag"
  by (auto simp: choose_action_def Let_def split: if_splits sum.splits)

lemma agent_inv_new_agent: "agent_inv (fst (new_agent env tid ps lanes h))"
  by (simp add: new_agent_def agent_inv_def Let_def deque_new_def)

lemma agent_inv_update:
  assumes "agent_inv ag" "update_q_table ag idxs st a r st' = Inr ag'"
  shows "agent_inv ag'"
proof -
  have "agent_inv (ag\<lparr>experience := deque_append (experience ag) (st, a, r, st'),
                   q_table := q_table ag',
                   steps_since_last_change := steps_since_last_change ag + 1\<rparr>)"
    using assms(1) deque_append_length [of "experience ag" "(st, a, r, st')"]
    by (simp add: agent_inv_def deque_append_maxlen)
  with update_q_table_Inr [OF assms(2)] show ?thesis by simp
qed

lemma agent_inv_choose:
  assumes "agent_inv ag" "choose_action ag d st = Inr (k, ag')"
  shows "agent_inv ag'"
  using assms(1) unfolding choose_action_Inr [OF assms(2)]
  by (auto simp: agent_inv_def max_def mult_le_one)

lemma agent_inv_apply_op:
  assumes "agent_inv ag" "apply_op ag op = Inr ag'"
  shows "agent_inv ag'"
  using assms
  by (cases op) (auto simp: Let_def split: sum.splits dest: agent_inv_update agent_inv_choose)

lemma agent_inv_run_ops:
  "agent_inv ag \<Longrightarrow> run_ops ag ops = Inr ag' \<Longrightarrow> agent_inv ag'"
  by (induction ops arbitrary: ag) (auto split: sum.splits dest: agent_inv_apply_op)

subsection \<open>When an update returns\<close>

lemma py_max_Inr: "xs \<noteq> [] \<Longrightarrow> \<exists>m. py_max xs = Inr m"
  by (cases xs) (simp_all add: py_max_def)

lemma py_max_eq_Max: "xs \<noteq> [] \<Longrightarrow> py_max xs = Inr (Max (set xs))"
  by (cases xs) (simp_all add: py_max_def Max.set_eq_fold [symmetric])

lemma q_step_returns: "phases ag \<noteq> [] \<Longrightarrow> \<exists>q'. q_step ag q t = Inr q'"
proof -
  assume ne: "phases ag \<noteq> []"
  obtain s a r s_new where t: "t = (s, a, r, s_new)" by (cases t) auto
  from ne have "map (\<lambda>a_new. q_get q (s_new, a_new)) (py_range (length (phases ag))) \<noteq> []"
    by (simp add: py_range_def)
  from py_max_Inr [OF this] show ?thesis
    by (auto simp: q_step_def Let_def t)
qed

lemma q_batch_returns: "phases ag \<noteq> [] \<Longrightarrow> \<exists>q'. q_batch ag q ts = Inr q'"
proof (induction ts arbitrary: q)
  case Nil
  then show ?case by simp
next
  case (Cons t ts)
  from q_step_returns [OF Cons.prems, of q t] obtain q1 where "q_step ag q t = Inr q1" by blast
  with Cons.IH [OF Cons.prems, of q1] show ?case by simp
qed

lemma update_q_table_returns:
  assumes "phases ag \<noteq> []"
  shows "\<exists>ag'. update_q_table ag idxs st a r st' = Inr ag'"
proof -
  let ?ag1 = "ag\<lparr>experience := deque_append (experience ag) (st, a, r, st')\<rparr>"
  from assms have "phases ?ag1 \<noteq> []" by simp
  from q_batch_returns [OF this]
  obtain q' where
    "q_batch ?ag1 (q_table ?ag1) (random_sample idxs (items (experience ?ag1))) = Inr q'"
    by blast
  then show ?thesis
    by (simp add: update_q_table_def Let_def)
qed

lemma demo_agent_phases: "phases demo_agent = [''GrGr'', ''rGrG'']"
  by (simp add: demo_agent_def new_agent_def Let_def)

lemma demo_agent_inv: "agent_inv demo_agent"
  unfolding demo_agent_def by (rule agent_inv_new_agent)

lemma full_agent_phases: "phases full_agent \<noteq> []"
  by (simp add: full_agent_def demo_agent_phases)

lemma replay64_agent_inv: "agent_inv replay64_agent"
  by (simp add: replay64_agent_def agent_inv_def new_agent_def Let_def)

lemma replay64_agent_phases: "phases replay64_agent = [''GrGr'', ''rGrG'']"
  by (simp add: replay64_agent_def new_agent_def Let_def)

subsection \<open>The replay buffer\<close>

text \<open>
  Claim C3. After any sequence of operations on an agent made by the constructor, the
  replay buffer holds at most 2000 transitions. An update appends its transition on the
  right; when the buffer already holds 2000, the transition on the left, the oldest, is
  the one dropped.
\<close>

theorem buffer_bounded_fifo:
  "(run_ops (fst (new_agent env tid ps lanes h)) ops = Inr ag \<longrightarrow>
      maxlen (experience ag) = 2000 \<and> length (items (experience ag)) \<le> 2000)
   \<and> (maxlen (experience b) = 2000 \<and> update_q_table b idxs st a r st' = Inr b' \<longrightarrow>
        maxlen (experience b') = 2000 \<and>
        items (experience b') =
          (if length (items (experience b)) < 2000
           then items (experience b) @ [(st, a, r, st')]
           else tl (items (experience b)) @ [(st, a, r, st')]))"
proof -
  have reach: "maxlen (experience ag) = 2000 \<and> length (items (experience ag)) \<le> 2000"
    if "run_ops (fst (new_agent env tid ps lanes h)) ops = Inr ag"
    using agent_inv_run_ops [OF agent_inv_new_agent that] by (simp add: agent_inv_def)
  have fifo: "maxlen (experience b') = 2000 \<and>
        items (experience b') =
          (if length (items (experience b)) < 2000
           then items (experience b) @ [(st, a, r, st')]
           else tl (items (experience b)) @ [(st, a, r, st')])"
    if "maxlen (experience b) = 2000" and "update_q_table b idxs st a r st' = Inr b'"
    using that(1) unfolding update_q_table_experience [OF that(2)]
    by (cases "items (experience b)") (simp_all add: deque_append_items deque_append_maxlen)
  from reach fifo show ?thesis by blast
qed

theorem buffer_bounded_fifo_witness:
  "(\<exists>ag. run_ops (fst (new_agent demo_env ''A'' [''GrGr'', ''rGrG''] [] default_hyper))
            [UpdateQTable [] [0] 1 0.5 [1]] = Inr ag
         \<and> length (items (experience ag)) \<le> 2000)
   \<and> (\<exists>b'. update_q_table full_agent [0..<64] [5] 1 2 [6] = Inr b'
         \<and> items (experience b') = replicate 1999 ([1], 0, 1, [1]) @ [([5], 1, 2, [6])])"
proof -
  obtain ag where ag:
    "run_ops (fst (new_agent demo_env ''A'' [''GrGr'', ''rGrG''] [] default_hyper))
       [UpdateQTable [] [0] 1 0.5 [1]] = Inr ag"
    by (simp add: new_agent_def Let_def update_q_table_def deque_append_def deque_new_def)
  obtain b' where b': "update_q_table full_agent [0..<64] [5] 1 2 [6] = Inr b'"
    using update_q_table_returns [OF full_agent_phases] by blast
  have m: "maxlen (experience full_agent) = 2000" by (simp add: full_agent_def)
  have l: "items (experience full_agent) = ([7], 1, 3, [8]) # replicate 1999 ([1], 0, 1, [1])"
    by (simp add: full_agent_def)
  from buffer_bounded_fifo [of demo_env "''A''" "[''GrGr'', ''rGrG'']" "[]" default_hyper
      "[UpdateQTable [] [0] 1 0.5 [1]]" ag full_agent "[0..<64]" "[5]" 1 2 "[6]" b'] ag b' m
  show ?thesis by (simp add: l)
qed


subsection \<open>A batch of identical transitions\<close>

lemma next_max_single:
  assumes a: "0 \<le> a" "a < int n" and x: "0 \<le> x"
  shows "py_max (map (\<lambda>a_new. q_get [(s, a) \<mapsto> x] (s, a_new)) (py_range n)) = Inr x"
proof -
  let ?vs = "map (\<lambda>a_new. q_get [(s, a) \<mapsto> x] (s, a_new)) (py_range n)"
  from a have mem: "a \<in> set (py_range n)"
    by (auto simp: py_range_def image_iff intro!: bexI [of _ "nat a"])
  then have ne: "?vs \<noteq> []" by auto
  have "Max (set ?vs) = x"
  proof (rule Max_eqI)
    show "finite (set ?vs)" by simp
    show "y \<le> x" if "y \<in> set ?vs" for y
      using that x by (auto simp: q_get_def)
    show "x \<in> set ?vs"
      using mem by (auto simp: q_get_def image_iff intro!: bexI [of _ a])
  qed
  with py_max_eq_Max [OF ne] show ?thesis by simp
qed

lemma next_max_empty:
  assumes "0 < n"
  shows "py_max (map (\<lambda>a_new. q_get Map.empty (s, a_new)) (py_range n)) = Inr 0"
proof -
  let ?vs = "map (\<lambda>a_new. q_get Map.empty (s, a_new)) (py_range n)"
  from assms have ne: "?vs \<noteq> []" by (simp add: py_range_def)
  then have "set ?vs = {0}" by (auto simp: q_get_def py_range_def)
  with py_max_eq_Max [OF ne] show ?thesis by simp
qed

lemma q_step_first:
  assumes "phases ag \<noteq> []"
  shows "q_step ag Map.empty (s, a, r, s) = Inr [(s, a) \<mapsto> bellman (alpha ag) (gamma ag) r 0]"
  using assms next_max_empty [of "length (phases ag)" s]
  by (simp add: q_step_def Let_def q_get_def bellman_def)

lemma q_step_next:
  assumes "0 \<le> a" "a < int (length (phases ag))" "0 \<le> x"
  shows "q_step ag [(s, a) \<mapsto> x] (s, a, r, s)
           = Inr [(s, a) \<mapsto> bellman (alpha ag) (gamma ag) r x]"
proof -
  have g: "q_get [(s, a) \<mapsto> x] (s, a) = x" by (simp add: q_get_def)
  show ?thesis
    unfolding q_step_def
    by (simp add: Let_def g next_max_single [OF assms] bellman_def)
qed

lemma bellman_half: "bellman (1/2) (9/10) 1 y = 10 - 19/20 * (10 - y)"
  by (simp add: bellman_def field_simps)

lemma bellman_half_nonneg: "0 \<le> y \<Longrightarrow> 0 \<le> bellman (1/2) (9/10) 1 y"
  by (simp add: bellman_def field_simps)

lemma bellman_half_funpow: "(bellman (1/2) (9/10) 1 ^^ n) x = 10 - (10 - x) * (19/20) ^ n"
  by (induction n) (simp_all add: bellman_half)

lemma q_batch_same:
  assumes "alpha ag = 1/2" "gamma ag = 9/10" "0 \<le> a" "a < int (length (phases ag))" "0 \<le> x"
  shows "q_batch ag [(s, a) \<mapsto> x] (replicate n (s, a, 1, s))
           = Inr [(s, a) \<mapsto> (bellman (1/2) (9/10) 1 ^^ n) x]"
  using assms(5)
proof (induction n arbitrary: x)
  case 0
  then show ?case by simp
next
  case (Suc n)
  have 1: "q_step ag [(s, a) \<mapsto> x] (s, a, 1, s) = Inr [(s, a) \<mapsto> bellman (1/2) (9/10) 1 x]"
    using q_step_next [OF assms(3,4) Suc.prems, of s 1] unfolding assms(1,2) .
  have 2: "q_batch ag [(s, a) \<mapsto> bellman (1/2) (9/10) 1 x] (replicate n (s, a, 1, s))
           = Inr [(s, a) \<mapsto> (bellman (1/2) (9/10) 1 ^^ n) (bellman (1/2) (9/10) 1 x)]"
    by (rule Suc.IH [OF bellman_half_nonneg [OF Suc.prems]])
  show ?case
    unfolding replicate_Suc q_batch.simps 1 sum.case 2 funpow_Suc_right o_apply ..
qed

lemma q_batch_same_from_empty:
  assumes "alpha ag = 1/2" "gamma ag = 9/10" "0 \<le> a" "a < int (length (phases ag))"
  shows "q_batch ag Map.empty (replicate (Suc n) (s, a, 1, s))
           = Inr [(s, a) \<mapsto> 10 * (1 - (19/20) ^ Suc n)]"
proof -
  from assms have ne: "phases ag \<noteq> []" by auto
  have 0: "bellman (1/2) (9/10) 1 0 = 1/2" by (simp add: bellman_def)
  have 1: "q_step ag Map.empty (s, a, 1, s) = Inr [(s, a) \<mapsto> 1/2]"
    using q_step_first [OF ne, of s a 1] unfolding assms(1,2) 0 .
  have 2: "q_batch ag [(s, a) \<mapsto> 1/2] (replicate n (s, a, 1, s))
           = Inr [(s, a) \<mapsto> (bellman (1/2) (9/10) 1 ^^ n) (1/2)]"
    by (rule q_batch_same [OF assms]) simp
  have 3: "(bellman (1/2) (9/10) 1 ^^ n) (1/2) = 10 * (1 - (19/20) ^ Suc n)"
    by (simp add: bellman_half_funpow algebra_simps)
  show ?thesis
    unfolding replicate_Suc q_batch.simps 1 sum.case 2 3 ..
qed

lemma random_sample_same:
  assumes "valid_sample (length xs) k idxs" "set xs \<subseteq> {t}"
  shows "random_sample idxs xs = replicate k t"
proof -
  have "map (\<lambda>i. xs ! i) idxs = map (\<lambda>i. t) idxs"
    using assms by (intro map_cong) (auto simp: valid_sample_def list_all_iff dest: nth_mem)
  with assms(1) show ?thesis
    by (simp add: random_sample_def valid_sample_def map_replicate_const)
qed

lemma valid_sample_upt: "k \<le> n \<Longrightarrow> valid_sample n k [0..<k]"
  by (simp add: valid_sample_def list_all_iff)

lemma update_q_table_same:
  assumes inv: "agent_inv ag"
    and al: "alpha ag = 1/2" and ga: "gamma ag = 9/10"
    and q0: "q_table ag = Map.empty"
    and buf: "set (items (experience ag)) \<subseteq> {(s, a, 1, s)}"
    and len: "63 \<le> length (items (experience ag))"
    and a: "0 \<le> a" "a < int (length (phases ag))"
    and idxs: "valid_sample (length (items (deque_append (experience ag) (s, a, 1, s)))) 64 idxs"
  shows "update_q_table ag idxs s a 1 s
           = Inr (ag\<lparr>experience := deque_append (experience ag) (s, a, 1, s),
                     q_table := [(s, a) \<mapsto> 10 * (1 - (19/20) ^ 64)],
                     steps_since_last_change := steps_since_last_change ag + 1\<rparr>)"
proof -
  let ?e = "deque_append (experience ag) (s, a, 1, s)"
  let ?ag1 = "ag\<lparr>experience := ?e\<rparr>"
  from inv have bs: "batch_size ag = 64" and ml: "maxlen (experience ag) = 2000"
    by (simp_all add: agent_inv_def)
  from len ml have fire: "64 \<le> length (items ?e)"
    by (simp add: deque_append_items)
  have smp: "random_sample idxs (items ?e) = replicate (Suc 63) (s, a, 1, s)"
    using random_sample_same [OF idxs deque_append_same [OF buf]] by simp
  have "q_batch ?ag1 Map.empty (replicate (Suc 63) (s, a, 1, s))
          = Inr [(s, a) \<mapsto> 10 * (1 - (19/20) ^ Suc 63)]"
    by (rule q_batch_same_from_empty) (simp_all add: al ga a)
  then have qb: "q_batch ?ag1 (q_table ?ag1) (random_sample idxs (items (experience ?ag1)))
          = Inr [(s, a) \<mapsto> 10 * (1 - (19/20) ^ 64)]"
    by (simp add: smp q0)
  show ?thesis
    unfolding update_q_table_def Let_def qb using fire by (simp add: bs)
qed

lemma replay64_update:
  "update_q_table replay64_agent [0..<64] [3] 0 1 [3]
     = Inr (replay64_agent
              \<lparr>experience := deque_append (experience replay64_agent) ([3], 0, 1, [3]),
               q_table := [([3], 0) \<mapsto> 10 * (1 - (19/20) ^ 64)],
               steps_since_last_change := steps_since_last_change replay64_agent + 1\<rparr>)"
proof (rule update_q_table_same [OF replay64_agent_inv])
  show "valid_sample (length (items (deque_append (experience replay64_agent) ([3], 0, 1, [3]))))
          64 [0..<64]"
    by (rule valid_sample_upt) (simp add: replay64_agent_def deque_append_items)
qed (simp_all add: replay64_agent_def new_agent_def Let_def default_hyper_def)

text \<open>
  Claim C1, as the code has it. The agent's buffer holds copies of one transition
  \<open>(s, a, 1, s)\<close> only, at least 63 of them, its Q-table is empty, \<open>\<alpha> = 0.5\<close>,
  \<open>\<gamma> = 0.9\<close>, and \<open>a\<close> is one of the agent's actions. A call that appends one more
  copy samples 64 copies and applies the update 64 times, each time to the table the
  previous update left: the first update alone gives 0.5, and the call leaves
  \<open>Q(s, a) = 10 (1 - 0.95\<^sup>6\<^sup>4)\<close>.
\<close>

theorem batch_of_identical_transitions:
  assumes "agent_inv ag"
    and "alpha ag = 1/2" and "gamma ag = 9/10"
    and "q_table ag = Map.empty"
    and "set (items (experience ag)) \<subseteq> {(s, a, 1, s)}"
    and "63 \<le> length (items (experience ag))"
    and "0 \<le> a" and "a < int (length (phases ag))"
    and "valid_sample (length (items (deque_append (experience ag) (s, a, 1, s)))) 64 idxs"
  shows "q_step ag Map.empty (s, a, 1, s) = Inr [(s, a) \<mapsto> 1/2]
         \<and> q_after (update_q_table ag idxs s a 1 s) (s, a) = Inr (10 * (1 - (19/20) ^ 64))"
proof -
  from assms(8) assms(7) have ne: "phases ag \<noteq> []" by auto
  have 0: "bellman (1/2) (9/10) 1 0 = 1/2" by (simp add: bellman_def)
  have first: "q_step ag Map.empty (s, a, 1, s) = Inr [(s, a) \<mapsto> 1/2]"
    using q_step_first [OF ne, of s a 1] unfolding assms(2,3) 0 .
  have "q_after (update_q_table ag idxs s a 1 s) (s, a) = Inr (10 * (1 - (19/20) ^ 64))"
    unfolding update_q_table_same [OF assms] by (simp add: q_after_def q_get_def)
  with first show ?thesis ..
qed

theorem batch_of_identical_transitions_witness:
  "q_after (update_q_table replay64_agent [0..<64] [3] 0 1 [3]) ([3], 0)
     = Inr (10 * (1 - (19/20) ^ 64))"
proof -
  have v: "valid_sample (length (items (deque_append (experience replay64_agent) ([3], 0, 1, [3]))))
          64 [0..<64]"
    by (rule valid_sample_upt) (simp add: replay64_agent_def deque_append_items)
  have "q_step replay64_agent Map.empty ([3], 0, 1, [3]) = Inr [([3], 0) \<mapsto> 1/2]
         \<and> q_after (update_q_table replay64_agent [0..<64] [3] 0 1 [3]) ([3], 0)
              = Inr (10 * (1 - (19/20) ^ 64))"
    by (rule batch_of_identical_transitions [OF replay64_agent_inv _ _ _ _ _ _ _ v])
       (simp_all add: replay64_agent_def new_agent_def Let_def default_hyper_def)
  then show ?thesis ..
qed

theorem batch_of_identical_transitions_counterexample:
  "q_after (update_q_table replay64_agent [0..<64] [3] 0 1 [3]) ([3], 0)
     = Inr (10 * (1 - (19/20) ^ 64))
   \<and> (10 * (1 - (19/20) ^ 64) :: real) \<noteq> 0.5"
proof -
  have "q_after (update_q_table replay64_agent [0..<64] [3] 0 1 [3]) ([3], 0)
     = Inr (10 * (1 - (19/20) ^ 64))"
    unfolding replay64_update by (simp add: q_after_def q_get_def)
  moreover have "(10 * (1 - (19/20) ^ 64) :: real) \<noteq> 0.5"
    by (simp add: power_divide)
  ultimately show ?thesis ..
qed


subsection \<open>The batch threshold\<close>

text \<open>
  Claim C4, as the code has it. An update first appends its transition and then compares
  the length of the buffer with 64. When the buffer, with the new transition in it, holds
  fewer than 64 transitions, the Q-table is left as it was; a Q-table that has changed
  means the buffer holds at least 64. Counted before the call, the Q-table is left as it
  was when the buffer holds fewer than 63 transitions; a call on a buffer of 63 runs the
  batch.
\<close>

theorem q_table_untouched_below_batch:
  assumes "agent_inv ag" and "update_q_table ag idxs st a r st' = Inr ag'"
  shows "experience ag' = deque_append (experience ag) (st, a, r, st')
         \<and> (length (items (experience ag')) < 64 \<longrightarrow> q_table ag' = q_table ag)
         \<and> (q_table ag' \<noteq> q_table ag \<longrightarrow> 64 \<le> length (items (experience ag')))
         \<and> (length (items (experience ag)) < 63 \<longrightarrow> q_table ag' = q_table ag)"
proof -
  from assms(1) have bs: "batch_size ag = 64" and ml: "maxlen (experience ag) = 2000"
    by (simp_all add: agent_inv_def)
  have e: "experience ag' = deque_append (experience ag) (st, a, r, st')"
    by (rule update_q_table_experience [OF assms(2)])
  have below: "length (items (experience ag')) < 64 \<Longrightarrow> q_table ag' = q_table ag"
    using update_q_table_below_batch [OF assms(2)] by (simp add: bs)
  have "length (items (experience ag')) < 64" if "length (items (experience ag)) < 63"
    using that ml unfolding e by (simp add: deque_append_items)
  with e below show ?thesis by auto
qed

lemma replay63_agent_inv: "agent_inv replay63_agent"
  by (simp add: replay63_agent_def replay64_agent_def agent_inv_def new_agent_def Let_def)

lemma replay63_update:
  "update_q_table replay63_agent [0..<64] [3] 0 1 [3]
     = Inr (replay63_agent
              \<lparr>experience := deque_append (experience replay63_agent) ([3], 0, 1, [3]),
               q_table := [([3], 0) \<mapsto> 10 * (1 - (19/20) ^ 64)],
               steps_since_last_change := steps_since_last_change replay63_agent + 1\<rparr>)"
proof (rule update_q_table_same [OF replay63_agent_inv])
  show "valid_sample (length (items (deque_append (experience replay63_agent) ([3], 0, 1, [3]))))
          64 [0..<64]"
    by (rule valid_sample_upt) (simp add: replay63_agent_def deque_append_items)
qed (simp_all add: replay63_agent_def replay64_agent_def new_agent_def Let_def default_hyper_def)

theorem q_table_untouched_below_batch_witness:
  "(\<exists>ag'. update_q_table demo_agent [] [0] 1 0.5 [1] = Inr ag'
          \<and> length (items (experience ag')) < 64 \<and> q_table ag' = q_table demo_agent)
   \<and> (\<exists>ag'. update_q_table replay64_agent [0..<64] [3] 0 1 [3] = Inr ag'
          \<and> q_table ag' \<noteq> q_table replay64_agent \<and> 64 \<le> length (items (experience ag')))"
proof -
  have ne1: "phases demo_agent \<noteq> []" by (simp add: demo_agent_phases)
  obtain ag1 where 1: "update_q_table demo_agent [] [0] 1 0.5 [1] = Inr ag1"
    using update_q_table_returns [OF ne1] by blast
  have l1: "length (items (experience ag1)) < 64"
    unfolding update_q_table_experience [OF 1]
    by (simp add: demo_agent_def new_agent_def Let_def deque_new_def deque_append_items)
  from q_table_untouched_below_batch [OF demo_agent_inv 1] l1
  have "q_table ag1 = q_table demo_agent" by blast
  with 1 l1 have first: "\<exists>ag'. update_q_table demo_agent [] [0] 1 0.5 [1] = Inr ag'
          \<and> length (items (experience ag')) < 64 \<and> q_table ag' = q_table demo_agent"
    by blast
  obtain ag2 where 2: "update_q_table replay64_agent [0..<64] [3] 0 1 [3] = Inr ag2"
    using replay64_update by blast
  have "q_table ag2 = [([3], 0) \<mapsto> 10 * (1 - (19/20) ^ 64)]"
    using 2 unfolding replay64_update by auto
  moreover have "q_table replay64_agent = Map.empty"
    by (simp add: replay64_agent_def new_agent_def Let_def)
  ultimately have ne: "q_table ag2 \<noteq> q_table replay64_agent"
    by (metis map_upd_nonempty)
  with q_table_untouched_below_batch [OF replay64_agent_inv 2]
  have "64 \<le> length (items (experience ag2))" by blast
  with 2 ne have "\<exists>ag'. update_q_table replay64_agent [0..<64] [3] 0 1 [3] = Inr ag'
          \<and> q_table ag' \<noteq> q_table replay64_agent \<and> 64 \<le> length (items (experience ag'))"
    by blast
  with first show ?thesis ..
qed

text \<open>
  The call is made while the buffer holds 63 transitions, fewer than 64, and it changes
  \<open>Q([3], 0)\<close> from 0 to \<open>10 (1 - 0.95\<^sup>6\<^sup>4)\<close>.
\<close>

theorem q_table_untouched_below_batch_counterexample:
  "length (items (experience replay63_agent)) = 63
   \<and> q_get (q_table replay63_agent) ([3], 0) = 0
   \<and> q_after (update_q_table replay63_agent [0..<64] [3] 0 1 [3]) ([3], 0)
       = Inr (10 * (1 - (19/20) ^ 64))
   \<and> (10 * (1 - (19/20) ^ 64) :: real) \<noteq> 0"
proof -
  have "length (items (experience replay63_agent)) = 63"
    by (simp add: replay63_agent_def)
  moreover have "q_get (q_table replay63_agent) ([3], 0) = 0"
    by (simp add: replay63_agent_def replay64_agent_def new_agent_def Let_def q_get_def)
  moreover have "q_after (update_q_table replay63_agent [0..<64] [3] 0 1 [3]) ([3], 0)
       = Inr (10 * (1 - (19/20) ^ 64))"
    unfolding replay63_update by (simp add: q_after_def q_get_def)
  moreover have "(10 * (1 - (19/20) ^ 64) :: real) \<noteq> 0"
    by (simp add: power_divide)
  ultimately show ?thesis by blast
qed

subsection \<open>The step counter\<close>

lemma apply_op_steps:
  "apply_op ag op = Inr ag' \<Longrightarrow>
   steps_since_last_change ag' = steps_since_last_change ag + (if is_update op then 1 else 0)"
  by (cases op)
     (auto simp: Let_def split: sum.splits dest: update_q_table_steps choose_action_steps)

lemma run_ops_steps:
  "run_ops ag ops = Inr ag' \<Longrightarrow>
   steps_since_last_change ag' = steps_since_last_change ag + int (length (filter is_update ops))"
proof (induction ops arbitrary: ag)
  case Nil
  then show ?case by simp
next
  case (Cons op ops)
  then obtain ag1 where 1: "apply_op ag op = Inr ag1" and 2: "run_ops ag1 ops = Inr ag'"
    by (auto split: sum.splits)
  from apply_op_steps [OF 1] Cons.IH [OF 2] show ?case by simp
qed

text \<open>
  Claim C9. Every call of \<^verbatim>\<open>update_q_table\<close> that returns has added exactly 1 to the
  step counter, whether or not the batch update ran; the call returns whenever the agent
  has a phase. No operation of the agent lowers or resets the counter: after any sequence
  of operations it is the old value plus the number of updates in the sequence.
\<close>

theorem step_counter_counts_updates:
  "(update_q_table ag idxs st a r st' = Inr ag' \<longrightarrow>
      steps_since_last_change ag' = steps_since_last_change ag + 1)
   \<and> (phases ag \<noteq> [] \<longrightarrow> (\<exists>ag1. update_q_table ag idxs st a r st' = Inr ag1))
   \<and> (run_ops ag ops = Inr ag'' \<longrightarrow>
        steps_since_last_change ag'' =
          steps_since_last_change ag + int (length (filter is_update ops))
        \<and> steps_since_last_change ag \<le> steps_since_last_change ag'')"
proof -
  have "steps_since_last_change ag'' =
          steps_since_last_change ag + int (length (filter is_update ops))
        \<and> steps_since_last_change ag \<le> steps_since_last_change ag''"
    if "run_ops ag ops = Inr ag''"
    using run_ops_steps [OF that] by simp
  then show ?thesis
    using update_q_table_steps [of ag idxs st a r st' ag']
      update_q_table_returns [of ag idxs st a r st']
    by blast
qed

lemma demo_run:
  "\<exists>ag. run_ops demo_agent
          [GetState demo_env, ChooseAction explore_draws [1, 21, 1, 2, 0, 0, 0, 13, 0],
           GetReward demo_env, UpdateQTable [] [1] 0 (- 0.42) [2],
           UpdateQTable [] [2] 1 0.1 [3]] = Inr ag"
  by (simp add: demo_agent_def new_agent_def Let_def choose_action_def explore_draws_def
      np_randint_def update_q_table_def deque_append_def deque_new_def default_hyper_def)

theorem step_counter_counts_updates_witness:
  "(\<exists>ag'. update_q_table demo_agent [] [1] 0 (- 0.42) [2] = Inr ag'
         \<and> steps_since_last_change ag' = 1)
   \<and> (\<exists>ag. run_ops demo_agent
          [GetState demo_env, ChooseAction explore_draws [1, 21, 1, 2, 0, 0, 0, 13, 0],
           GetReward demo_env, UpdateQTable [] [1] 0 (- 0.42) [2],
           UpdateQTable [] [2] 1 0.1 [3]] = Inr ag
         \<and> steps_since_last_change ag = 2)"
proof -
  have s0: "steps_since_last_change demo_agent = 0"
    by (simp add: demo_agent_def new_agent_def Let_def)
  have ne: "phases demo_agent \<noteq> []" by (simp add: demo_agent_phases)
  let ?ops = "[GetState demo_env, ChooseAction explore_draws [1, 21, 1, 2, 0, 0, 0, 13, 0],
           GetReward demo_env, UpdateQTable [] [1] 0 (- 0.42) [2],
           UpdateQTable [] [2] 1 0.1 [3]]"
  from demo_run obtain ag where run: "run_ops demo_agent ?ops = Inr ag" by blast
  from step_counter_counts_updates [of demo_agent "[]" "[1]" 0 "- 0.42" "[2]" _ ?ops ag] ne
  obtain ag1 where 1: "update_q_table demo_agent [] [1] 0 (- 0.42) [2] = Inr ag1" by blast
  from step_counter_counts_updates [of demo_agent "[]" "[1]" 0 "- 0.42" "[2]" ag1 ?ops ag] 1 run
  have "steps_since_last_change ag1 = 1" "steps_since_last_change ag = 2"
    by (simp_all add: s0)
  with 1 run show ?thesis by blast
qed


subsection \<open>The exploration schedule\<close>

lemma choose_action_floor:
  assumes "choose_action ag d st = Inr (k, ag')"
  shows "min_epsilon ag' = min_epsilon ag \<and> min_temperature ag' = min_temperature ag
         \<and> min_epsilon ag \<le> epsilon ag' \<and> min_temperature ag \<le> temperature ag'"
  unfolding choose_action_Inr [OF assms] by simp

lemma choose_action_cooling:
  assumes "agent_inv ag" "choose_action ag d st = Inr (k, ag')"
  shows "temperature ag' \<le> temperature ag"
proof -
  from assms(1) have "temperature ag * temperature_decay ag \<le> temperature ag"
    by (simp add: agent_inv_def)
  then show ?thesis
    using assms(1) unfolding choose_action_Inr [OF assms(2)]
    by (simp add: agent_inv_def)
qed

lemma choose_action_decay:
  assumes "schedule_ok ag" "choose_action ag d st = Inr (k, ag')"
  shows "schedule_ok ag' \<and> epsilon ag' \<le> epsilon ag"
proof -
  from assms(1) have "epsilon ag * epsilon_decay ag \<le> epsilon ag"
    "0 \<le> epsilon ag * epsilon_decay ag"
    by (simp_all add: schedule_ok_def mult_left_le)
  then show ?thesis
    using assms(1) unfolding choose_action_Inr [OF assms(2)]
    by (simp add: schedule_ok_def max_def)
qed

lemma apply_op_cooling:
  assumes "agent_inv ag" "apply_op ag op = Inr ag'"
  shows "temperature ag' \<le> temperature ag"
proof (cases op)
  case (ChooseAction d st)
  with assms(2) obtain k where "choose_action ag d st = Inr (k, ag')"
    by (auto split: sum.splits)
  from choose_action_cooling [OF assms(1) this] show ?thesis .
next
  case (UpdateQTable idxs st a r st')
  with assms(2) have "update_q_table ag idxs st a r st' = Inr ag'" by simp
  from update_q_table_schedule [OF this] show ?thesis by simp
qed (use assms in \<open>auto simp: Let_def\<close>)

lemma apply_op_decay:
  assumes "schedule_ok ag" "apply_op ag op = Inr ag'"
  shows "schedule_ok ag' \<and> epsilon ag' \<le> epsilon ag"
proof (cases op)
  case (ChooseAction d st)
  with assms(2) obtain k where "choose_action ag d st = Inr (k, ag')"
    by (auto split: sum.splits)
  from choose_action_decay [OF assms(1) this] show ?thesis .
next
  case (UpdateQTable idxs st a r st')
  with assms(2) have "update_q_table ag idxs st a r st' = Inr ag'" by simp
  from update_q_table_schedule [OF this] assms(1) show ?thesis
    by (simp add: schedule_ok_def)
qed (use assms in \<open>auto simp: Let_def\<close>)

lemma run_ops_cooling:
  "agent_inv ag \<Longrightarrow> run_ops ag ops = Inr ag' \<Longrightarrow> temperature ag' \<le> temperature ag"
proof (induction ops arbitrary: ag)
  case Nil
  then show ?case by simp
next
  case (Cons op ops)
  from Cons.prems(2) obtain ag1 where 1: "apply_op ag op = Inr ag1"
    and 2: "run_ops ag1 ops = Inr ag'"
    by (auto split: sum.splits)
  from apply_op_cooling [OF Cons.prems(1) 1]
    Cons.IH [OF agent_inv_apply_op [OF Cons.prems(1) 1] 2]
  show ?case by simp
qed

lemma run_ops_decay:
  "schedule_ok ag \<Longrightarrow> run_ops ag ops = Inr ag' \<Longrightarrow> schedule_ok ag' \<and> epsilon ag' \<le> epsilon ag"
proof (induction ops arbitrary: ag)
  case Nil
  then show ?case by simp
next
  case (Cons op ops)
  from Cons.prems(2) obtain ag1 where 1: "apply_op ag op = Inr ag1"
    and 2: "run_ops ag1 ops = Inr ag'"
    by (auto split: sum.splits)
  from apply_op_decay [OF Cons.prems(1) 1] have s1: "schedule_ok ag1" and e1: "epsilon ag1 \<le> epsilon ag"
    by simp_all
  from Cons.IH [OF s1 2] e1 show ?case by simp
qed

text \<open>
  Claim C5, as the code has it. After every \<^verbatim>\<open>choose_action\<close> call, \<open>\<epsilon>\<close> and \<open>\<tau>\<close>
  are at or above their floors. Over any sequence of operations on an agent made by the
  constructor, \<open>\<tau>\<close> does not increase. \<open>\<epsilon>\<close> does not increase when the agent is
  configured with a decay factor between 0 and 1 and a rate that is not negative and not
  below its floor; a rate configured below the floor is raised to the floor by the first
  call.
\<close>

theorem exploration_schedule:
  "(choose_action ag d st = Inr (k, ag1) \<longrightarrow>
      min_epsilon ag1 = min_epsilon ag \<and> min_temperature ag1 = min_temperature ag
      \<and> min_epsilon ag \<le> epsilon ag1 \<and> min_temperature ag \<le> temperature ag1)
   \<and> (agent_inv ag \<and> run_ops ag ops = Inr ag' \<longrightarrow> temperature ag' \<le> temperature ag)
   \<and> (schedule_ok ag \<and> run_ops ag ops = Inr ag' \<longrightarrow>
         epsilon ag' \<le> epsilon ag \<and> schedule_ok ag')"
  using choose_action_floor [of ag d st k ag1] run_ops_cooling [of ag ops ag']
    run_ops_decay [of ag ops ag']
  by blast

lemma demo_agent_schedule: "schedule_ok demo_agent"
  by (simp add: schedule_ok_def demo_agent_def new_agent_def Let_def default_hyper_def)

lemma demo_choose_twice:
  "\<exists>ag. run_ops demo_agent [ChooseAction explore_draws [0], ChooseAction explore_draws [1]] = Inr ag"
  by (simp add: demo_agent_def new_agent_def Let_def choose_action_def explore_draws_def
      np_randint_def default_hyper_def)

theorem exploration_schedule_witness:
  "\<exists>ag'. run_ops demo_agent [ChooseAction explore_draws [0], ChooseAction explore_draws [1]] = Inr ag'
         \<and> temperature ag' \<le> temperature demo_agent \<and> epsilon ag' \<le> epsilon demo_agent"
proof -
  from demo_choose_twice obtain ag' where
    run: "run_ops demo_agent [ChooseAction explore_draws [0], ChooseAction explore_draws [1]] = Inr ag'"
    by blast
  from exploration_schedule [of demo_agent _ _ _ _
      "[ChooseAction explore_draws [0], ChooseAction explore_draws [1]]" ag']
    run demo_agent_inv demo_agent_schedule
  have "temperature ag' \<le> temperature demo_agent \<and> epsilon ag' \<le> epsilon demo_agent"
    by blast
  with run show ?thesis by blast
qed

theorem exploration_schedule_counterexample:
  "epsilon low_epsilon_agent = 0.005
   \<and> epsilon_after (choose_action low_epsilon_agent explore_draws [0]) = Inr 0.01"
  by (simp add: low_epsilon_agent_def new_agent_def Let_def default_hyper_def choose_action_def
      explore_draws_def np_randint_def epsilon_after_def)

subsection \<open>An agent with one phase\<close>

lemma exp_860: "(2::real) ^ 1075 \<le> exp 860"
proof -
  have "(5/2::real) \<le> exp 1"
    using exp_lower_Taylor_quadratic [of "1::real"] by simp
  then have "(5/2::real) ^ 860 \<le> exp 1 ^ 860"
    by (intro power_mono) simp_all
  also have "exp (1::real) ^ 860 = exp 860"
    using exp_of_nat_mult [of 860 "1::real"] by simp
  finally have 1: "(5/2::real) ^ 860 \<le> exp 860" .
  have "(32::real) \<le> (5/2) ^ 4" by (simp add: power_divide)
  then have "(32::real) ^ 215 \<le> ((5/2) ^ 4) ^ 215"
    by (intro power_mono) simp_all
  moreover have "(32::real) ^ 215 = 2 ^ 1075"
    using power_mult [of "2::real" 5 215] by simp
  moreover have "((5/2::real) ^ 4) ^ 215 = (5/2) ^ 860"
    using power_mult [of "5/2::real" 4 215] by simp
  ultimately have "(2::real) ^ 1075 \<le> (5/2) ^ 860" by simp
  with 1 show ?thesis by simp
qed

lemma exp_underflows: "x \<le> - 860 \<Longrightarrow> exp x \<le> underflow_bound"
proof -
  assume "x \<le> - 860"
  then have "exp x \<le> exp (- 860)" by simp
  also have "\<dots> = 1 / exp 860" by (simp add: exp_minus inverse_eq_divide)
  also have "\<dots> \<le> 1 / 2 ^ 1075"
    using exp_860 by (intro divide_left_mono) simp_all
  finally show ?thesis by (simp add: underflow_bound_def)
qed

lemma overflow_bound_pos: "0 < overflow_bound"
  using power_strict_increasing [of 970 1024 "2::real"] by (simp add: overflow_bound_def)

lemma np_exp_underflow: "x \<le> - 860 \<Longrightarrow> np_exp x = Finite 0"
  by (simp add: np_exp_def exp_underflows)

lemma np_exp_finite:
  "underflow_bound < exp x \<Longrightarrow> exp x < overflow_bound \<Longrightarrow> np_exp x = Finite (exp x)"
  by (simp add: np_exp_def)

lemma np_sum_single:
  "a < overflow_bound \<Longrightarrow> np_sum [Finite a] = Finite a"
  by (simp add: np_sum_def)

lemma np_choice_single:
  assumes "0 \<le> u" "u < 1"
  shows "np_choice u (Suc 0) [Finite 1] = Inr 0"
  using assms by (simp add: np_choice_def np_atol_def Let_def)

lemma np_choice_nan: "np_choice u (Suc 0) [NaN] = Inl ValueError"
  by (simp add: np_choice_def)

text \<open>
  With one phase, the exploration branch returns 0, and so does the softmax branch as
  long as the exponential of the action's value over the temperature is a positive
  finite double.
\<close>

lemma single_phase_explores_zero:
  assumes "phases ag = [p]" and "draws_ok 1 d"
    and "coin d < max (min_epsilon ag) (epsilon ag * epsilon_decay ag)"
  shows "action_of (choose_action ag d st) = Inr 0"
proof -
  from assms(2) have "pick d = 0" by (simp add: draws_ok_def)
  with assms(1,3) show ?thesis
    by (simp add: choose_action_def action_of_def Let_def np_randint_def)
qed

lemma single_phase_softmax_zero:
  assumes ph: "phases ag = [p]" and d: "draws_ok 1 d"
    and lo: "underflow_bound
               < exp (q_get (q_table ag) (st, 0)
                      / max (min_temperature ag) (temperature ag * temperature_decay ag))"
    and hi: "exp (q_get (q_table ag) (st, 0)
                  / max (min_temperature ag) (temperature ag * temperature_decay ag))
               < overflow_bound"
  shows "action_of (choose_action ag d st) = Inr 0"
proof -
  let ?x = "q_get (q_table ag) (st, 0)
              / max (min_temperature ag) (temperature ag * temperature_decay ag)"
  from d have pick: "pick d = 0" and spin: "0 \<le> spin d" "spin d < 1"
    by (simp_all add: draws_ok_def)
  have e: "np_exp ?x = Finite (exp ?x)" by (rule np_exp_finite [OF lo hi])
  have s: "np_sum [Finite (exp ?x)] = Finite (exp ?x)" by (rule np_sum_single [OF hi])
  have q: "np_divide (Finite (exp ?x)) (Finite (exp ?x)) = Finite 1" by simp
  show ?thesis
    unfolding choose_action_def action_of_def
    by (simp add: Let_def ph py_range_def np_randint_def pick e s q np_choice_single [OF spin])
qed

text \<open>
  With one phase, in the softmax branch, a value at or below \<open>-860\<close> times the
  temperature makes the exponential underflow to 0: the sum is 0, the only probability
  is \<open>0 / 0 = nan\<close>, and \<^verbatim>\<open>np.random.choice\<close> raises.
\<close>

lemma single_phase_softmax_underflow:
  assumes ph: "phases ag = [p]"
    and exploit: "\<not> coin d < max (min_epsilon ag) (epsilon ag * epsilon_decay ag)"
    and low: "q_get (q_table ag) (st, 0)
                / max (min_temperature ag) (temperature ag * temperature_decay ag) \<le> - 860"
  shows "choose_action ag d st = Inl ValueError"
proof -
  let ?x = "q_get (q_table ag) (st, 0)
              / max (min_temperature ag) (temperature ag * temperature_decay ag)"
  have e: "np_exp ?x = Finite 0" by (rule np_exp_underflow [OF low])
  have s: "np_sum [Finite 0] = Finite 0" by (rule np_sum_single [OF overflow_bound_pos])
  have q: "np_divide (Finite 0) (Finite 0) = NaN" by simp
  show ?thesis
    unfolding choose_action_def
    using exploit by (simp add: Let_def ph py_range_def e s q np_choice_nan)
qed

lemma single_phase_agent_inv: "agent_inv single_phase_agent"
  unfolding single_phase_agent_def by (rule agent_inv_new_agent)

lemma single_phase_agent_fresh:
  "action_of (choose_action single_phase_agent explore_draws [4]) = Inr 0
   \<and> action_of (choose_action single_phase_agent exploit_draws [4]) = Inr 0"
proof -
  have ph: "phases single_phase_agent = [''G'']"
    by (simp add: single_phase_agent_def new_agent_def Let_def)
  have d: "draws_ok 1 explore_draws" "draws_ok 1 exploit_draws"
    by (simp_all add: draws_ok_def explore_draws_def exploit_draws_def)
  have q: "q_get (q_table single_phase_agent) ([4], 0) = 0"
    by (simp add: single_phase_agent_def new_agent_def Let_def q_get_def)
  have lo: "underflow_bound < 1" by (simp add: underflow_bound_def)
  have "(2::real) ^ 970 + 1 < 2 ^ 971" by simp
  also have "(2::real) ^ 971 < 2 ^ 1024" by (rule power_strict_increasing) simp_all
  finally have hi: "1 < overflow_bound" by (simp add: overflow_bound_def)
  from single_phase_softmax_zero [OF ph d(1), of "[4]"]
    single_phase_softmax_zero [OF ph d(2), of "[4]"] lo hi
  show ?thesis by (simp add: q)
qed

text \<open>
  Claim C6. An agent with exactly one phase should choose action 0 on every call. The
  code does so in the exploration branch and, in the softmax branch, while
  \<^verbatim>\<open>np.exp(Q / temperature)\<close> is a positive finite number. For the one-phase agent
  whose value \<open>Q([4], 0)\<close> is \<open>-1000\<close>, with temperature \<open>0.995\<close> after the decay,
  the same call returns 0 when the first draw explores and raises \<^verbatim>\<open>ValueError\<close>
  when it does not: the exponential underflows and the probability is \<open>nan\<close>.
\<close>

theorem single_phase_softmax_raises:
  "action_of (choose_action congested_agent explore_draws [4]) = Inr 0
   \<and> action_of (choose_action congested_agent exploit_draws [4]) = Inl ValueError"
proof -
  have ph: "phases congested_agent = [''G'']"
    by (simp add: congested_agent_def single_phase_agent_def new_agent_def Let_def)
  have d: "draws_ok 1 explore_draws"
    by (simp add: draws_ok_def explore_draws_def)
  have c1: "coin explore_draws
              < max (min_epsilon congested_agent)
                  (epsilon congested_agent * epsilon_decay congested_agent)"
    by (simp add: congested_agent_def single_phase_agent_def new_agent_def Let_def
        default_hyper_def explore_draws_def)
  have c2: "\<not> coin exploit_draws
              < max (min_epsilon congested_agent)
                  (epsilon congested_agent * epsilon_decay congested_agent)"
    by (simp add: congested_agent_def single_phase_agent_def new_agent_def Let_def
        default_hyper_def exploit_draws_def)
  have low: "q_get (q_table congested_agent) ([4], 0)
               / max (min_temperature congested_agent)
                   (temperature congested_agent * temperature_decay congested_agent)
             \<le> - 860"
    by (simp add: congested_agent_def single_phase_agent_def new_agent_def Let_def q_get_def)
  from single_phase_explores_zero [OF ph d c1, of "[4]"]
    single_phase_softmax_underflow [OF ph c2 low]
  show ?thesis by (simp add: action_of_def)
qed

subsection \<open>The reward\<close>

lemma fold_long_wait:
  "fold (long_wait env) vs r =
     r + (\<Sum>v\<leftarrow>vs. if 30 < vehicle_waiting_time env v
                    then - 0.01 * vehicle_waiting_time env v else 0)"
  by (induction vs arbitrary: r) (simp_all add: long_wait_def Let_def)

lemma fold_lane_waiting:
  "fold (lane_waiting env) ls r =
     r + (\<Sum>lane\<leftarrow>ls.
            - 0.1 * real (length (filter (\<lambda>v. vehicle_speed env v < 0.1)
                                   (lane_vehicle_ids env lane)))
            + (\<Sum>v\<leftarrow>lane_vehicle_ids env lane.
                 if 30 < vehicle_waiting_time env v
                 then - 0.01 * vehicle_waiting_time env v else 0))"
  by (induction ls arbitrary: r) (simp_all add: lane_waiting_def Let_def fold_long_wait)

lemma fold_lane_throughput:
  "fold (lane_throughput env) ls r =
     r + (\<Sum>lane\<leftarrow>ls. 0.2 * of_int (lane_vehicle_number env lane))"
  by (induction ls arbitrary: r) (simp_all add: lane_throughput_def Let_def)

text \<open>
  Claim C2. The value \<^verbatim>\<open>get_reward\<close> returns is the sum, over the controlled lanes, of
  \<open>-0.1\<close> times the number of vehicles on the lane slower than 0.1, of \<open>-0.01\<close> times the
  waiting time of each vehicle on the lane that has waited longer than 30, and of \<open>0.2\<close>
  times the lane's vehicle number, with \<open>-0.5\<close> added exactly when the step counter is
  below 10.
\<close>

theorem get_reward_is_sum: "get_reward env ag = reward_sum env ag"
  by (simp add: get_reward_def reward_sum_def lane_reward_def Let_def fold_lane_waiting
      fold_lane_throughput sum_list_addf)

theorem get_reward_is_sum_witness: "get_reward demo_env demo_agent = - 0.42"
  unfolding get_reward_is_sum
  by (simp add: reward_sum_def lane_reward_def demo_env_def demo_agent_def new_agent_def Let_def
      get_controlled_lanes_def)


section \<open>Properties of the orchestrator\<close>

subsection \<open>The run mode\<close>

text \<open>
  Claim C7. A run mode that is neither \<open>standard\<close> nor \<open>qlearning\<close> makes
  \<^verbatim>\<open>run_simulation\<close> raise \<^verbatim>\<open>ValueError\<close>; the simulator and the log of calls are
  as they were, so no session has been opened and nothing else has been done.
\<close>

theorem unknown_mode_raises_first:
  assumes "simulation_type \<noteq> ''standard''" and "simulation_type \<noteq> ''qlearning''"
  shows "run_simulation eng rnd simulation_type net_file trips_file episodes steps qp s
           = (Inl ValueError, s)"
  using assms by (simp add: run_simulation_def)

theorem unknown_mode_raises_first_witness:
  "run_simulation still_engine no_chance ''foo'' ''osm.net.xml'' ''trips.xml'' 10 100 None fresh_sim
     = (Inl ValueError, fresh_sim)"
  by (rule unknown_mode_raises_first) simp_all

subsection \<open>Steps without vehicles\<close>

lemma py_div_pos: "0 < n \<Longrightarrow> py_div x n = Inr (x / real n)"
  by (simp add: py_div_def)

lemma collect_stats_returns: "\<exists>stats'. collect_stats vd stats = Inr stats'"
  by (cases vd) (simp_all add: collect_stats_def Let_def py_div_pos)

lemma get_vehicle_data_none: "vehicle_id_list env = [] \<Longrightarrow> get_vehicle_data env = []"
  by (simp add: get_vehicle_data_def)

text \<open>
  Claim C10, as the code has it. Collecting the statistics of a step never divides by
  zero. In a step without vehicles the sums stay at zero, no mean is computed and nothing
  is appended to the statistics of the run: the step leaves no entry, not an entry of
  zeros.
\<close>

theorem no_vehicles_no_division:
  "(\<exists>stats'. collect_stats vd stats = Inr stats')
   \<and> (vehicle_id_list env = [] \<longrightarrow>
        get_vehicle_data env = []
        \<and> current_stats (get_vehicle_data env)
            = \<lparr>sum_waiting_time = 0, sum_queue_length = 0, sum_speed = 0, sum_stops = 0\<rparr>
        \<and> collect_stats (get_vehicle_data env) stats = Inr stats)"
  using collect_stats_returns [of vd stats]
  by (auto simp: get_vehicle_data_none current_stats_def collect_stats_def Let_def)

theorem no_vehicles_no_division_witness:
  "collect_stats (get_vehicle_data quiet_env) new_stats = Inr new_stats"
proof -
  have "vehicle_id_list quiet_env = []" by (simp add: quiet_env_def)
  with no_vehicles_no_division [of _ new_stats quiet_env] show ?thesis by blast
qed

theorem no_vehicles_no_division_counterexample:
  "collect_stats (get_vehicle_data quiet_env) new_stats = Inr new_stats
   \<and> waiting_times new_stats = []
   \<and> collect_stats (get_vehicle_data quiet_env) new_stats \<noteq> Inr (stats_with_zeros new_stats)"
  by (simp add: get_vehicle_data_def quiet_env_def collect_stats_def Let_def new_stats_def
      stats_with_zeros_def)

text \<open>
  A consequence in the fixed-timing run: at a hundredth step, when no step so far has
  seen a vehicle, the progress line reads the last mean waiting time of an empty list.
\<close>

lemma standard_progress_without_sample:
  assumes "vehicle_id_list (observe eng (world (b_sim b))) = []"
    and "waiting_times (b_stats b) = []"
  shows "standard_step eng steps 99 b = Inl (IndexError, traci_simulationStep eng (b_sim b))"
  using assms
  by (simp add: standard_step_def Let_def get_vehicle_data_none collect_stats_def)


subsection \<open>Intersections without lanes\<close>

lemma new_agent_quiet:
  "get_controlled_lanes env tid \<noteq> [] \<Longrightarrow> snd (new_agent env tid ps lanes h) = []"
  by (simp add: new_agent_def Let_def)

lemma setup_agent_skip:
  "get_controlled_lanes env tid = [] \<Longrightarrow>
   setup_agent env qp tid (ags, out) = (ags, out @ [NoControlledLanes tid])"
  by (simp add: setup_agent_def Let_def)

lemma new_agent_split:
  "get_controlled_lanes env tid \<noteq> [] \<Longrightarrow> \<exists>ag. new_agent env tid ps lanes h = (ag, [])"
  by (simp add: new_agent_def Let_def)

lemma setup_agent_eq:
  "setup_agent env qp tid (ags, out) =
     (if get_controlled_lanes env tid = [] then (ags, out @ [NoControlledLanes tid])
      else (AList.update tid
              (fst (new_agent env tid (get_traffic_light_phases env tid)
                      (get_controlled_lanes env tid) (chosen_hyper qp))) ags,
            out @ snd (new_agent env tid (get_traffic_light_phases env tid)
                         (get_controlled_lanes env tid) (chosen_hyper qp))
                @ [AgentInitialised tid (length (get_traffic_light_phases env tid))]))"
proof (cases qp)
  case None
  then show ?thesis
    by (simp add: setup_agent_def chosen_hyper_def Let_def split: prod.splits)
next
  case (Some p)
  then show ?thesis
    by (cases "nonempty p") (simp_all add: setup_agent_def chosen_hyper_def Let_def split: prod.splits)
qed

lemma setup_agent_keep:
  assumes "get_controlled_lanes env tid \<noteq> []"
  shows "\<exists>ag. setup_agent env qp tid (ags, out)
               = (AList.update tid ag ags,
                  out @ [AgentInitialised tid (length (get_traffic_light_phases env tid))])"
  using assms by (auto simp: setup_agent_eq new_agent_quiet)

lemma setup_agent_agents:
  "fst (setup_agent env qp tid (ags, out)) = fst (setup_agent env qp tid (ags, out'))"
  by (simp add: setup_agent_eq)

lemma setup_agent_messages:
  "set out \<subseteq> set (snd (setup_agent env qp tid (ags, out)))"
  by (auto simp: setup_agent_eq)

lemma setup_fold_messages:
  "set (snd acc) \<subseteq> set (snd (fold (setup_agent env qp) ids acc))"
proof (induction ids arbitrary: acc)
  case Nil
  then show ?case by simp
next
  case (Cons tid ids)
  obtain ags out where acc: "acc = (ags, out)" by (cases acc)
  have "set (snd acc) \<subseteq> set (snd (setup_agent env qp tid acc))"
    unfolding acc using setup_agent_messages [of out env qp tid ags] by simp
  also have "\<dots> \<subseteq> set (snd (fold (setup_agent env qp) ids (setup_agent env qp tid acc)))"
    by (rule Cons.IH)
  finally show ?case by simp
qed

lemma setup_fold_warns:
  assumes "tid \<in> set ids" "get_controlled_lanes env tid = []"
  shows "NoControlledLanes tid \<in> set (snd (fold (setup_agent env qp) ids acc))"
  using assms(1)
proof (induction ids arbitrary: acc)
  case Nil
  then show ?case by simp
next
  case (Cons x ids)
  obtain ags out where acc: "acc = (ags, out)" by (cases acc)
  show ?case
  proof (cases "x = tid")
    case True
    have "NoControlledLanes tid \<in> set (snd (setup_agent env qp tid acc))"
      unfolding acc setup_agent_skip [OF assms(2)] by simp
    with setup_fold_messages [of "setup_agent env qp tid acc" env qp ids] True
    show ?thesis by auto
  next
    case False
    with Cons.prems have "tid \<in> set ids" by simp
    from Cons.IH [OF this] show ?thesis by simp
  qed
qed

lemma setup_fold_keys:
  "fst ` set (fst (fold (setup_agent env qp) ids acc))
     = fst ` set (fst acc) \<union> {tid \<in> set ids. get_controlled_lanes env tid \<noteq> []}"
proof (induction ids arbitrary: acc)
  case Nil
  then show ?case by simp
next
  case (Cons tid ids)
  obtain ags out where acc: "acc = (ags, out)" by (cases acc)
  show ?case
  proof (cases "get_controlled_lanes env tid = []")
    case True
    then show ?thesis
      unfolding acc by (auto simp: setup_agent_skip Cons.IH)
  next
    case False
    from setup_agent_keep [OF False, of qp ags out] obtain ag out' where
      "setup_agent env qp tid (ags, out) = (AList.update tid ag ags, out')" by blast
    with False show ?thesis
      unfolding acc by (auto simp: Cons.IH dom_update)
  qed
qed

lemma setup_fold_filter:
  "fst (fold (setup_agent env qp) ids (ags, out))
     = fst (fold (setup_agent env qp)
              (filter (\<lambda>tid. get_controlled_lanes env tid \<noteq> []) ids) (ags, out'))"
proof (induction ids arbitrary: ags out out')
  case Nil
  then show ?case by simp
next
  case (Cons tid ids)
  show ?case
  proof (cases "get_controlled_lanes env tid = []")
    case True
    then show ?thesis
      using Cons.IH [of ags "out @ [NoControlledLanes tid]" out']
      by (simp add: setup_agent_skip)
  next
    case False
    obtain ags1 out1 where 1: "setup_agent env qp tid (ags, out) = (ags1, out1)"
      by (cases "setup_agent env qp tid (ags, out)")
    obtain ags2 out2 where 2: "setup_agent env qp tid (ags, out') = (ags2, out2)"
      by (cases "setup_agent env qp tid (ags, out')")
    from setup_agent_agents [of env qp tid ags out out'] 1 2 have "ags2 = ags1" by simp
    with False 1 2 Cons.IH [of ags1 out1 out2] show ?thesis by simp
  qed
qed

lemma new_agent_ids:
  "new_agent (env\<lparr>tl_id_list := xs\<rparr>) tid ps lanes h = new_agent env tid ps lanes h"
  by (simp add: new_agent_def get_controlled_lanes_def Let_def)

lemma setup_agent_ids:
  "setup_agent (env\<lparr>tl_id_list := xs\<rparr>) qp = setup_agent env qp"
proof (rule ext, rule ext)
  fix tid and acc :: "agents \<times> message list"
  obtain ags out where acc: "acc = (ags, out)" by (cases acc)
  show "setup_agent (env\<lparr>tl_id_list := xs\<rparr>) qp tid acc = setup_agent env qp tid acc"
    unfolding acc setup_agent_eq new_agent_ids
    by (simp add: get_traffic_light_phases_def get_controlled_lanes_def)
qed

lemma grid_setup_agent_skip:
  "get_controlled_lanes env tid = [] \<Longrightarrow>
   grid_setup_agent env al ga eps dec tid (ags, out) = (ags, out)"
  by (simp add: grid_setup_agent_def Let_def)

lemma grid_setup_agent_keep:
  assumes "get_controlled_lanes env tid \<noteq> []"
  shows "\<exists>ag. grid_setup_agent env al ga eps dec tid (ags, out) = (AList.update tid ag ags, out)"
proof -
  from new_agent_split [OF assms] obtain ag where
    "new_agent env tid (get_traffic_light_phases env tid) (get_controlled_lanes env tid)
       (default_hyper\<lparr>h_alpha := al, h_gamma := ga, h_epsilon := eps, h_epsilon_decay := dec\<rparr>)
     = (ag, [])" by blast
  with assms show ?thesis by (auto simp: grid_setup_agent_def Let_def)
qed

lemma grid_fold:
  "snd (fold (grid_setup_agent env al ga eps dec) ids acc) = snd acc
   \<and> fst ` set (fst (fold (grid_setup_agent env al ga eps dec) ids acc))
       = fst ` set (fst acc) \<union> {tid \<in> set ids. get_controlled_lanes env tid \<noteq> []}"
proof (induction ids arbitrary: acc)
  case Nil
  then show ?case by simp
next
  case (Cons tid ids)
  obtain ags out where acc: "acc = (ags, out)" by (cases acc)
  show ?case
  proof (cases "get_controlled_lanes env tid = []")
    case True
    then show ?thesis
      unfolding acc using Cons.IH [of "(ags, out)"] by (auto simp: grid_setup_agent_skip)
  next
    case False
    from grid_setup_agent_keep [OF False, of al ga eps dec ags out] obtain ag where
      "grid_setup_agent env al ga eps dec tid (ags, out) = (AList.update tid ag ags, out)" by blast
    with False show ?thesis
      unfolding acc using Cons.IH [of "(AList.update tid ag ags, out)"] by (auto simp: dom_update)
  qed
qed

lemma map_of_None_iff: "map_of xs k = None \<longleftrightarrow> k \<notin> fst ` set xs"
  by (simp add: map_of_eq_None_iff)

subsection \<open>The log only grows\<close>

lemma log_emit: "log (emit e s) = log s @ [e]"
  by (simp add: emit_def)

lemma fold_err_log:
  assumes ok: "\<And>x s r. f x s = Inr r \<Longrightarrow> \<exists>es. lg r = lg s @ es"
    and err: "\<And>x s e w. f x s = Inl (e, w) \<Longrightarrow> \<exists>es. log w = lg s @ es"
  shows "(fold_err f xs s = Inr r \<longrightarrow> (\<exists>es. lg r = lg s @ es))
         \<and> (fold_err f xs s = Inl (e, w) \<longrightarrow> (\<exists>es. log w = lg s @ es))"
proof (induction xs arbitrary: s)
  case Nil
  then show ?case by simp
next
  case (Cons x xs)
  show ?case
  proof (cases "f x s")
    case (Inl p)
    obtain e' w' where p: "p = (e', w')" by (cases p)
    from err [of x s e' w'] Inl p show ?thesis by auto
  next
    case (Inr s1)
    from ok [OF Inr] obtain es1 where 1: "lg s1 = lg s @ es1" by blast
    from Cons.IH [of s1] Inr show ?thesis by (auto simp: 1)
  qed
qed

lemma agent_turn_log:
  "(agent_turn eng rnd tid t = Inr t' \<longrightarrow> (\<exists>es. log (t_sim t') = log (t_sim t) @ es))
   \<and> (agent_turn eng rnd tid t = Inl (e, w) \<longrightarrow> (\<exists>es. log w = log (t_sim t) @ es))"
  by (auto simp: agent_turn_def Let_def traci_setPhase_def log_emit
      split: option.splits sum.splits prod.splits)

lemma agent_turns_log:
  "(fold_err (agent_turn eng rnd) xs t = Inr t' \<longrightarrow> (\<exists>es. log (t_sim t') = log (t_sim t) @ es))
   \<and> (fold_err (agent_turn eng rnd) xs t = Inl (e, w) \<longrightarrow> (\<exists>es. log w = log (t_sim t) @ es))"
  by (rule fold_err_log) (use agent_turn_log in blast)+

lemma training_step_log:
  "(training_step eng rnd steps step t = Inr t' \<longrightarrow> (\<exists>es. log (t_sim t') = log (t_sim t) @ es))
   \<and> (training_step eng rnd steps step t = Inl (e, w) \<longrightarrow> (\<exists>es. log w = log (t_sim t) @ es))"
proof -
  let ?vd = "get_vehicle_data (observe eng (world (t_sim t)))"
  obtain stats where cs: "collect_stats ?vd (t_stats t) = Inr stats"
    using collect_stats_returns by blast
  let ?t0 = "t\<lparr>t_stats := stats, t_vehicle_data := Some ?vd\<rparr>"
  show ?thesis
  proof (cases "fold_err (agent_turn eng (rnd step)) (map fst (t_agents t)) ?t0")
    case (Inl p)
    obtain e' w' where p: "p = (e', w')" by (cases p)
    from agent_turns_log [of eng "rnd step" "map fst (t_agents t)" ?t0 _ e' w'] Inl p
    have "\<exists>es. log w' = log (t_sim t) @ es" by simp
    moreover have "training_step eng rnd steps step t = Inl (e', w')"
      by (simp add: training_step_def Let_def cs Inl p)
    ultimately show ?thesis by auto
  next
    case (Inr t1)
    from agent_turns_log [of eng "rnd step" "map fst (t_agents t)" ?t0 t1] Inr
    obtain es1 where 1: "log (t_sim t1) = log (t_sim t) @ es1" by auto
    have "\<exists>s2 es2. training_step eng rnd steps step t = Inr (t1\<lparr>t_sim := s2\<rparr>)
            \<and> log s2 = log (t_sim t1) @ es2"
      by (auto simp: training_step_def Let_def cs Inr traci_simulationStep_def py_print_def
          log_emit)
    with 1 show ?thesis by auto
  qed
qed

lemma training_steps_log:
  "(fold_err (training_step eng rnd steps) xs t = Inr t' \<longrightarrow>
      (\<exists>es. log (t_sim t') = log (t_sim t) @ es))
   \<and> (fold_err (training_step eng rnd steps) xs t = Inl (e, w) \<longrightarrow>
      (\<exists>es. log w = log (t_sim t) @ es))"
  by (rule fold_err_log) (use training_step_log in blast)+

lemma training_episode_log:
  "(training_episode eng rnd episodes steps episode t = Inr t' \<longrightarrow>
      (\<exists>es. log (t_sim t') = log (t_sim t) @ es))
   \<and> (training_episode eng rnd episodes steps episode t = Inl (e, w) \<longrightarrow>
      (\<exists>es. log w = log (t_sim t) @ es))"
proof -
  let ?s2 = "load_network_state eng ''Input/initial_state.xml''
               (py_print (EpisodeStart (episode + 1) episodes) (t_sim t))"
  let ?t1 = "t\<lparr>t_sim := ?s2,
               t_states := map (\<lambda>(tid, ag). (tid, get_state (observe eng (world ?s2)) ag))
                             (t_agents t),
               t_total_reward := 0\<rparr>"
  have 0: "\<exists>es. log (t_sim ?t1) = log (t_sim t) @ es"
    by (simp add: load_network_state_def py_print_def log_emit)
  show ?thesis
  proof (cases "fold_err (training_step eng (rnd episode) steps) [0..<steps] ?t1")
    case (Inl p)
    obtain e' w' where p: "p = (e', w')" by (cases p)
    from training_steps_log [of eng "rnd episode" steps "[0..<steps]" ?t1 _ e' w'] Inl p 0
    have "\<exists>es. log w' = log (t_sim t) @ es" by auto
    moreover have "training_episode eng rnd episodes steps episode t = Inl (e', w')"
      unfolding training_episode_def Let_def Inl p by simp
    ultimately show ?thesis by auto
  next
    case (Inr t2)
    from training_steps_log [of eng "rnd episode" steps "[0..<steps]" ?t1 t2] Inr 0
    obtain es where 2: "log (t_sim t2) = log (t_sim t) @ es" by auto
    show ?thesis
    proof (cases "t_vehicle_data t2")
      case None
      then have "training_episode eng rnd episodes steps episode t = Inl (NameError, t_sim t2)"
        unfolding training_episode_def Let_def Inr by simp
      with 2 show ?thesis by auto
    next
      case (Some vd)
      then have "training_episode eng rnd episodes steps episode t
        = Inr (t2\<lparr>t_sim := py_print (EpisodeDone (episode + 1) (t_total_reward t2) (length vd))
                               (t_sim t2)\<rparr>)"
        unfolding training_episode_def Let_def Inr by simp
      with 2 show ?thesis by (auto simp: py_print_def log_emit)
    qed
  qed
qed

lemma training_episodes_log:
  "(fold_err (training_episode eng rnd episodes steps) xs t = Inr t' \<longrightarrow>
      (\<exists>es. log (t_sim t') = log (t_sim t) @ es))
   \<and> (fold_err (training_episode eng rnd episodes steps) xs t = Inl (e, w) \<longrightarrow>
      (\<exists>es. log w = log (t_sim t) @ es))"
  by (rule fold_err_log) (use training_episode_log in blast)+

lemma standard_step_log:
  "(standard_step eng steps step b = Inr b' \<longrightarrow> (\<exists>es. log (b_sim b') = log (b_sim b) @ es))
   \<and> (standard_step eng steps step b = Inl (e, w) \<longrightarrow> (\<exists>es. log w = log (b_sim b) @ es))"
proof -
  let ?vd = "get_vehicle_data (observe eng (world (b_sim b)))"
  obtain stats where cs: "collect_stats ?vd (b_stats b) = Inr stats"
    using collect_stats_returns by blast
  show ?thesis
    by (auto simp: standard_step_def Let_def cs traci_simulationStep_def py_print_def log_emit
        split: if_splits)
qed

lemma standard_steps_log:
  "(fold_err (standard_step eng steps) xs b = Inr b' \<longrightarrow>
      (\<exists>es. log (b_sim b') = log (b_sim b) @ es))
   \<and> (fold_err (standard_step eng steps) xs b = Inl (e, w) \<longrightarrow>
      (\<exists>es. log w = log (b_sim b) @ es))"
  by (rule fold_err_log) (use standard_step_log in blast)+

lemma fold_print_log: "\<exists>es. log (fold py_print out s) = log s @ es"
proof (induction out arbitrary: s)
  case Nil
  then show ?case by simp
next
  case (Cons m out)
  from Cons.IH [of "py_print m s"] show ?case
    by (auto simp: py_print_def log_emit)
qed

text \<open>
  The two known run modes begin by starting the simulator: whatever happens later, the
  first call they add to the log is \<^verbatim>\<open>traci.start\<close>.
\<close>

lemma run_standard_simulation_starts:
  "\<exists>es. log (snd (run_standard_simulation eng net_file trips_file steps s))
          = log s @ TraciStart [''sumo'', ''-n'', net_file, ''--route-files'', trips_file,
                                ''--quit-on-end'', ''--ignore-route-errors'', ''--no-warnings'']
                  # es"
proof -
  let ?s1 = "initialize_simulation eng net_file trips_file s"
  let ?s3 = "py_print (TripsLoaded (count_trips eng trips_file (world ?s1)) trips_file)
               (emit (ParseTrips trips_file) ?s1)"
  let ?b = "\<lparr>b_sim = ?s3, b_stats = new_stats\<rparr>"
  let ?start = "TraciStart [''sumo'', ''-n'', net_file, ''--route-files'', trips_file,
                            ''--quit-on-end'', ''--ignore-route-errors'', ''--no-warnings'']"
  have 3: "\<exists>es. log ?s3 = log s @ ?start # es"
    by (simp add: initialize_simulation_def Let_def py_print_def log_emit)
  show ?thesis
  proof (cases "fold_err (standard_step eng (nat steps)) [0..<nat steps] ?b")
    case (Inl p)
    obtain e' w' where p: "p = (e', w')" by (cases p)
    from standard_steps_log [of eng "nat steps" "[0..<nat steps]" ?b _ e' w'] Inl p 3
    have "\<exists>es. log w' = log s @ ?start # es" by auto
    moreover have "snd (run_standard_simulation eng net_file trips_file steps s) = w'"
      by (simp add: run_standard_simulation_def Let_def load_trips_def Inl p)
    ultimately show ?thesis by simp
  next
    case (Inr b')
    from standard_steps_log [of eng "nat steps" "[0..<nat steps]" ?b b'] Inr 3
    have "\<exists>es. log (b_sim b') = log s @ ?start # es" by auto
    moreover have "snd (run_standard_simulation eng net_file trips_file steps s)
                     = close_simulation eng (b_sim b')"
      by (simp add: run_standard_simulation_def Let_def load_trips_def Inr)
    ultimately show ?thesis by (auto simp: close_simulation_def log_emit)
  qed
qed

lemma run_qlearning_starts:
  "\<exists>es. log (snd (run_qlearning eng rnd net_file trips_file episodes steps qp s))
          = log s @ TraciStart [''sumo'', ''-n'', net_file, ''--route-files'', trips_file,
                                ''--quit-on-end'', ''--ignore-route-errors'', ''--no-warnings'']
                  # es"
proof -
  let ?s1 = "initialize_simulation eng net_file trips_file s"
  let ?s4 = "save_network_state eng ''Input/initial_state.xml''
               (py_print (TripsLoaded (count_trips eng trips_file (world ?s1)) trips_file)
                  (emit (ParseTrips trips_file) ?s1))"
  obtain agents out where made: "setup_agents (observe eng (world ?s4)) qp = (agents, out)"
    by (cases "setup_agents (observe eng (world ?s4)) qp")
  let ?s5 = "fold py_print out ?s4"
  let ?t = "\<lparr>t_sim = ?s5, t_agents = agents, t_states = [], t_stats = new_stats,
              t_total_reward = 0, t_vehicle_data = None\<rparr>"
  let ?start = "TraciStart [''sumo'', ''-n'', net_file, ''--route-files'', trips_file,
                            ''--quit-on-end'', ''--ignore-route-errors'', ''--no-warnings'']"
  have 4: "\<exists>es. log ?s4 = log s @ ?start # es"
    by (simp add: initialize_simulation_def Let_def py_print_def save_network_state_def log_emit)
  with fold_print_log [of out ?s4] have 5: "\<exists>es. log ?s5 = log s @ ?start # es"
    by auto
  show ?thesis
  proof (cases "fold_err (training_episode eng rnd (nat episodes) (nat steps))
                  [0..<nat episodes] ?t")
    case (Inl p)
    obtain e' w' where p: "p = (e', w')" by (cases p)
    from training_episodes_log [of eng rnd "nat episodes" "nat steps" "[0..<nat episodes]" ?t
        _ e' w'] Inl p 5
    have "\<exists>es. log w' = log s @ ?start # es" by auto
    moreover have "snd (run_qlearning eng rnd net_file trips_file episodes steps qp s) = w'"
      unfolding run_qlearning_def Let_def load_trips_def prod.case made Inl p by simp
    ultimately show ?thesis by simp
  next
    case (Inr t')
    from training_episodes_log [of eng rnd "nat episodes" "nat steps" "[0..<nat episodes]" ?t
        t'] Inr 5
    have "\<exists>es. log (t_sim t') = log s @ ?start # es" by auto
    moreover have "snd (run_qlearning eng rnd net_file trips_file episodes steps qp s)
                     = close_simulation eng (t_sim t')"
      unfolding run_qlearning_def Let_def load_trips_def prod.case made Inr by simp
    ultimately show ?thesis by (auto simp: close_simulation_def log_emit)
  qed
qed

lemma known_modes_open_a_session:
  assumes "simulation_type = ''standard'' \<or> simulation_type = ''qlearning''"
  shows "\<exists>es. log (snd (run_simulation eng rnd simulation_type net_file trips_file episodes
                           steps qp s))
          = log s @ TraciStart [''sumo'', ''-n'', net_file, ''--route-files'', trips_file,
                                ''--quit-on-end'', ''--ignore-route-errors'', ''--no-warnings'']
                  # es"
  using assms run_standard_simulation_starts [of eng net_file trips_file steps s]
    run_qlearning_starts [of eng rnd net_file trips_file episodes steps qp s]
  by (auto simp: run_simulation_def)

subsection \<open>A run on the demonstration network\<close>

text \<open>
  The model evaluates: one step of the fixed-timing run and one episode of one step of
  the Q-learning run, on the network of two traffic lights with a simulator in which
  nothing moves.
\<close>


lemma demo_vehicle_data:
  "get_vehicle_data demo_env =
     [(''v1'', \<lparr>v_waiting_time = 42, v_speed = 0, v_stops = 0\<rparr>),
      (''v2'', \<lparr>v_waiting_time = 0, v_speed = 5, v_stops = 0\<rparr>),
      (''v3'', \<lparr>v_waiting_time = 0, v_speed = 13, v_stops = 0\<rparr>)]"
  by (simp add: get_vehicle_data_def demo_env_def)

lemma demo_collect:
  "collect_stats (get_vehicle_data demo_env) new_stats =
     Inr \<lparr>waiting_times = [14], queue_lengths = [1], vehicle_speeds = [6],
          vehicle_counts = [3], stops_count = [0]\<rparr>"
  by (simp add: demo_vehicle_data collect_stats_def current_stats_def add_vehicle_def Let_def
      py_div_def new_stats_def)

lemma standard_run_demo:
  "run_simulation still_engine no_chance ''standard'' ''n'' ''t'' 1 1 None fresh_sim
     = (Inr \<lparr>waiting_times = [14], queue_lengths = [1], vehicle_speeds = [6],
              vehicle_counts = [3], stops_count = [0]\<rparr>,
        \<lparr>world = demo_env,
         log = [TraciStart [''sumo'', ''-n'', ''n'', ''--route-files'', ''t'', ''--quit-on-end'',
                            ''--ignore-route-errors'', ''--no-warnings''],
                ParseTrips ''t'', Print (TripsLoaded 3 ''t''), SimulationStep, TraciClose]\<rparr>)"
  by (simp add: run_simulation_def run_standard_simulation_def standard_step_def Let_def
      initialize_simulation_def load_trips_def py_print_def emit_def close_simulation_def
      traci_simulationStep_def still_engine_def fresh_sim_def demo_collect)


lemma demo_setup:
  "setup_agents demo_env None = ([(''A'', demo_agent)], [AgentInitialised ''A'' 2, NoControlledLanes ''B''])"
  by (simp add: setup_agents_def setup_agent_eq chosen_hyper_def get_traffic_lights_def
      get_controlled_lanes_def get_traffic_light_phases_def demo_env_def demo_agent_def
      new_agent_def Let_def)

lemma demo_state: "get_state demo_env demo_agent = [1, 21, 1, 2, 0, 0, 0, 13, 0]"
  by (simp add: get_state_def lane_state_def py_int_def demo_env_def demo_agent_def new_agent_def
      get_controlled_lanes_def Let_def)


lemma demo_choose:
  "choose_action demo_agent explore_draws st
        = Inr (0, demo_agent\<lparr>epsilon := 199 / 1000, temperature := 199 / 200\<rparr>)"
  by (simp add: choose_action_def explore_draws_def np_randint_def demo_agent_def new_agent_def
      Let_def default_hyper_def)

lemma demo_reward: "get_reward demo_env (demo_agent\<lparr>epsilon := 199 / 1000, temperature := 199 / 200\<rparr>) = - 0.42"
  by (simp add: get_reward_def lane_waiting_def long_wait_def lane_throughput_def demo_env_def
      demo_agent_def new_agent_def get_controlled_lanes_def Let_def)

lemma demo_state': "get_state demo_env (demo_agent\<lparr>epsilon := 199 / 1000, temperature := 199 / 200\<rparr>)
   = [1, 21, 1, 2, 0, 0, 0, 13, 0]"
  by (simp add: get_state_def lane_state_def py_int_def demo_env_def demo_agent_def new_agent_def
      get_controlled_lanes_def Let_def)

lemma demo_update:
  "\<exists>ag. update_q_table (demo_agent\<lparr>epsilon := 199 / 1000, temperature := 199 / 200\<rparr>) idxs st a r st'
          = Inr ag"
  by (rule update_q_table_returns) (simp add: demo_agent_phases)

lemma demo_vehicle_count: "length (get_vehicle_data demo_env) = 3"
  by (simp add: demo_vehicle_data)

lemma qlearning_run_demo:
  "fst (run_simulation still_engine no_chance ''qlearning'' ''n'' ''t'' 1 1 None fresh_sim)
     = Inr \<lparr>waiting_times = [14], queue_lengths = [1], vehicle_speeds = [6],
              vehicle_counts = [3], stops_count = [0]\<rparr>
   \<and> log (snd (run_simulation still_engine no_chance ''qlearning'' ''n'' ''t'' 1 1 None fresh_sim))
     = [TraciStart [''sumo'', ''-n'', ''n'', ''--route-files'', ''t'', ''--quit-on-end'',
                            ''--ignore-route-errors'', ''--no-warnings''],
        ParseTrips ''t'', Print (TripsLoaded 3 ''t''), SaveState ''Input/initial_state.xml'',
        Print (AgentInitialised ''A'' 2), Print (NoControlledLanes ''B''),
        Print (EpisodeStart 1 1), LoadState ''Input/initial_state.xml'',
        SetPhase ''A'' 0, SimulationStep, Print (EpisodeDone 1 (- 0.42) 3), TraciClose]"
proof -
  obtain ag where u: "update_q_table (demo_agent\<lparr>epsilon := 199 / 1000, temperature := 199 / 200\<rparr>) [0..<64]
      [1, 21, 1, 2, 0, 0, 0, 13, 0] 0 (- (21 / 50)) [1, 21, 1, 2, 0, 0, 0, 13, 0] = Inr ag"
    using demo_update by blast
  show ?thesis
    by (simp add: run_simulation_def run_qlearning_def training_episode_def training_step_def
        agent_turn_def Let_def initialize_simulation_def load_trips_def py_print_def emit_def
        close_simulation_def save_network_state_def load_network_state_def
        traci_simulationStep_def traci_setPhase_def still_engine_def fresh_sim_def
        demo_setup demo_state demo_collect demo_choose demo_reward demo_state' demo_vehicle_count no_chance_def u)
qed


subsection \<open>Training without the lane-less traffic lights\<close>

lemma without_empty_reads:
  "get_controlled_lanes (without_empty env) = get_controlled_lanes env"
  "get_traffic_light_phases (without_empty env) = get_traffic_light_phases env"
  "get_traffic_lights (without_empty env)
     = filter (\<lambda>tid. get_controlled_lanes env tid \<noteq> []) (get_traffic_lights env)"
  "get_vehicle_data (without_empty env) = get_vehicle_data env"
  by (simp_all add: without_empty_def get_controlled_lanes_def get_traffic_light_phases_def
      get_traffic_lights_def get_vehicle_data_def fun_eq_iff)

lemma without_empty_lane_state: "lane_state (without_empty env) = lane_state env"
  by (rule ext) (simp add: without_empty_def lane_state_def)

lemma without_empty_state: "get_state (without_empty env) = get_state env"
  by (rule ext) (simp only: get_state_def without_empty_lane_state)

lemma without_empty_reward: "get_reward (without_empty env) = get_reward env"
proof -
  have 1: "long_wait (without_empty env) = long_wait env"
    by (simp add: fun_eq_iff long_wait_def without_empty_def)
  have 2: "lane_waiting (without_empty env) = lane_waiting env"
    unfolding lane_waiting_def 1 by (simp add: without_empty_def)
  have 3: "lane_throughput (without_empty env) = lane_throughput env"
    by (simp add: fun_eq_iff lane_throughput_def without_empty_def)
  show ?thesis
    by (rule ext) (simp add: get_reward_def 2 3)
qed

lemma without_empty_setup_agent: "setup_agent (without_empty env) qp = setup_agent env qp"
  unfolding without_empty_def by (rule setup_agent_ids)

lemma without_empty_grid_setup_agent:
  "grid_setup_agent (without_empty env) al ga eps dec = grid_setup_agent env al ga eps dec"
  by (rule ext, rule ext)
     (simp add: grid_setup_agent_def without_empty_def get_traffic_light_phases_def
        get_controlled_lanes_def new_agent_ids Let_def cong: if_cong)

lemma pruned_calls:
  "traci_start (pruned eng) = traci_start eng"
  "traci_close (pruned eng) = traci_close eng"
  "simulation_step (pruned eng) = simulation_step eng"
  "set_phase (pruned eng) = set_phase eng"
  "save_state (pruned eng) = save_state eng"
  "load_state (pruned eng) = load_state eng"
  "count_trips (pruned eng) = count_trips eng"
  "observe (pruned eng) w = without_empty (observe eng w)"
  by (simp_all add: pruned_def)

lemma pruned_adapter:
  "initialize_simulation (pruned eng) = initialize_simulation eng"
  "load_trips (pruned eng) = load_trips eng"
  "save_network_state (pruned eng) = save_network_state eng"
  "load_network_state (pruned eng) = load_network_state eng"
  "close_simulation (pruned eng) = close_simulation eng"
  "traci_simulationStep (pruned eng) = traci_simulationStep eng"
  "traci_setPhase (pruned eng) = traci_setPhase eng"
  by (simp_all add: fun_eq_iff initialize_simulation_def load_trips_def save_network_state_def
      load_network_state_def close_simulation_def traci_simulationStep_def traci_setPhase_def
      pruned_calls Let_def)

lemma pruned_observe: "observe (pruned eng) = (\<lambda>w. without_empty (observe eng w))"
  by (simp add: pruned_def)

lemma pruned_agent_turn: "agent_turn (pruned eng) = agent_turn eng"
  by (intro ext)
     (simp only: agent_turn_def Let_def pruned_adapter pruned_observe without_empty_state
        without_empty_reward)

lemma pruned_training_step: "training_step (pruned eng) = training_step eng"
  by (intro ext)
     (simp only: training_step_def Let_def pruned_adapter pruned_observe pruned_agent_turn
        without_empty_reads)

lemma pruned_training_episode: "training_episode (pruned eng) = training_episode eng"
  by (intro ext)
     (simp only: training_episode_def Let_def pruned_adapter pruned_observe pruned_training_step
        without_empty_state)

lemma pruned_grid_agent_turn: "grid_agent_turn (pruned eng) = grid_agent_turn eng"
  by (intro ext)
     (simp only: grid_agent_turn_def Let_def pruned_adapter pruned_observe without_empty_state
        without_empty_reward)

lemma pruned_grid_step: "grid_step (pruned eng) = grid_step eng"
  by (intro ext)
     (simp only: grid_step_def Let_def pruned_adapter pruned_observe pruned_grid_agent_turn
        without_empty_reads)

lemma pruned_grid_episode: "grid_episode (pruned eng) = grid_episode eng"
  by (intro ext)
     (simp only: grid_episode_def Let_def pruned_adapter pruned_observe pruned_grid_step
        without_empty_state)

lemma fold_print: "fold py_print out s = s\<lparr>log := log s @ map Print out\<rparr>"
  by (induction out arbitrary: s) (simp_all add: py_print_def emit_def)

lemma setup_fold_quiet:
  assumes "filter (\<lambda>e. \<not> is_lane_warning e) (map Print out)
             = filter (\<lambda>e. \<not> is_lane_warning e) (map Print out')"
  shows "filter (\<lambda>e. \<not> is_lane_warning e)
           (map Print (snd (fold (setup_agent env qp) ids (ags, out))))
         = filter (\<lambda>e. \<not> is_lane_warning e)
             (map Print (snd (fold (setup_agent env qp)
                (filter (\<lambda>tid. get_controlled_lanes env tid \<noteq> []) ids) (ags, out'))))"
  using assms
proof (induction ids arbitrary: ags out out')
  case Nil
  then show ?case by simp
next
  case (Cons tid ids)
  show ?case
  proof (cases "get_controlled_lanes env tid = []")
    case True
    have "filter (\<lambda>e. \<not> is_lane_warning e) (map Print (out @ [NoControlledLanes tid]))
            = filter (\<lambda>e. \<not> is_lane_warning e) (map Print out')"
      using Cons.prems by simp
    from Cons.IH [OF this, of ags] True show ?thesis
      by (simp add: setup_agent_skip)
  next
    case False
    let ?ag = "fst (new_agent env tid (get_traffic_light_phases env tid)
                      (get_controlled_lanes env tid) (chosen_hyper qp))"
    let ?m = "snd (new_agent env tid (get_traffic_light_phases env tid)
                     (get_controlled_lanes env tid) (chosen_hyper qp))
              @ [AgentInitialised tid (length (get_traffic_light_phases env tid))]"
    have 1: "setup_agent env qp tid (ags, out) = (AList.update tid ?ag ags, out @ ?m)"
      and 2: "setup_agent env qp tid (ags, out') = (AList.update tid ?ag ags, out' @ ?m)"
      using False by (simp_all add: setup_agent_eq)
    have "filter (\<lambda>e. \<not> is_lane_warning e) (map Print (out @ ?m))
            = filter (\<lambda>e. \<not> is_lane_warning e) (map Print (out' @ ?m))"
      using Cons.prems by simp
    from Cons.IH [OF this, of "AList.update tid ?ag ags"] False show ?thesis
      by (simp add: 1 2)
  qed
qed

lemma setup_agents_pruned:
  "fst (setup_agents (without_empty env) qp) = fst (setup_agents env qp)"
  "filter (\<lambda>e. \<not> is_lane_warning e) (map Print (snd (setup_agents (without_empty env) qp)))
     = filter (\<lambda>e. \<not> is_lane_warning e) (map Print (snd (setup_agents env qp)))"
proof -
  show "fst (setup_agents (without_empty env) qp) = fst (setup_agents env qp)"
    using setup_fold_filter [of env qp "get_traffic_lights env" "[]" "[]" "[]"]
    by (simp add: setup_agents_def without_empty_setup_agent without_empty_reads)
  show "filter (\<lambda>e. \<not> is_lane_warning e)
          (map Print (snd (setup_agents (without_empty env) qp)))
     = filter (\<lambda>e. \<not> is_lane_warning e) (map Print (snd (setup_agents env qp)))"
    using setup_fold_quiet [of "[]" "[]" env qp "get_traffic_lights env" "[]"]
    by (simp add: setup_agents_def without_empty_setup_agent without_empty_reads)
qed

lemma grid_fold_filter:
  "fold (grid_setup_agent env al ga eps dec) ids acc
     = fold (grid_setup_agent env al ga eps dec)
         (filter (\<lambda>tid. get_controlled_lanes env tid \<noteq> []) ids) acc"
proof (induction ids arbitrary: acc)
  case Nil
  then show ?case by simp
next
  case (Cons tid ids)
  obtain ags out where acc: "acc = (ags, out)" by (cases acc)
  show ?case
    by (cases "get_controlled_lanes env tid = []")
       (simp_all add: acc grid_setup_agent_skip Cons.IH)
qed

lemma grid_setup_agents_pruned:
  "grid_setup_agents (without_empty env) al ga eps dec = grid_setup_agents env al ga eps dec"
  using grid_fold_filter [of env al ga eps dec "get_traffic_lights env" "([], [])"]
  by (simp add: grid_setup_agents_def without_empty_grid_setup_agent without_empty_reads)

lemma run_simulation_with_params_pruned:
  "run_simulation_with_params (pruned eng) rnd net_file trips_file al ga eps dec episodes steps s
     = run_simulation_with_params eng rnd net_file trips_file al ga eps dec episodes steps s"
  by (simp only: run_simulation_with_params_def pruned_adapter pruned_observe
      pruned_grid_episode grid_setup_agents_pruned)

lemma same_run_refl: "same_run s s"
  by (simp add: same_run_def)

lemma same_run_world: "same_run s1 s2 \<Longrightarrow> world s1 = world s2"
  by (simp add: same_run_def)

lemma same_run_emit: "same_run s1 s2 \<Longrightarrow> same_run (emit e s1) (emit e s2)"
  by (simp add: same_run_def emit_def)

lemma same_run_calls:
  assumes "same_run s1 s2"
  shows "same_run (traci_setPhase eng tid a s1) (traci_setPhase eng tid a s2)"
    and "same_run (traci_simulationStep eng s1) (traci_simulationStep eng s2)"
    and "same_run (py_print m s1) (py_print m s2)"
    and "same_run (load_network_state eng f s1) (load_network_state eng f s2)"
    and "same_run (close_simulation eng s1) (close_simulation eng s2)"
  using assms
  by (simp_all add: same_run_def traci_setPhase_def traci_simulationStep_def py_print_def
      load_network_state_def close_simulation_def emit_def)

lemma fold_err_rel:
  assumes step: "\<And>x s1 s2. R s1 s2 \<Longrightarrow> rel_sum E R (f x s1) (f x s2)"
    and start: "R s1 s2"
  shows "rel_sum E R (fold_err f xs s1) (fold_err f xs s2)"
  using start
proof (induction xs arbitrary: s1 s2)
  case Nil
  then show ?case by simp
next
  case (Cons x xs)
  from step [OF Cons.prems, of x] show ?case
  proof (cases "f x s1"; cases "f x s2")
    fix a b
    assume ab: "f x s1 = Inr a" "f x s2 = Inr b"
    moreover assume "rel_sum E R (f x s1) (f x s2)"
    ultimately have "R a b" by simp
    from Cons.IH [OF this] ab show ?thesis by simp
  qed simp_all
qed

lemma agent_turn_rel:
  assumes "same_training t1 t2"
  shows "rel_sum (rel_prod (=) same_run) same_training
           (agent_turn eng rnd tid t1) (agent_turn eng rnd tid t2)"
proof -
  from assms have sim: "same_run (t_sim t1) (t_sim t2)"
    and ags: "t_agents t2 = t_agents t1" and sts: "t_states t2 = t_states t1"
    and rest: "t_stats t2 = t_stats t1" "t_total_reward t2 = t_total_reward t1"
      "t_vehicle_data t2 = t_vehicle_data t1"
    by (simp_all add: same_training_def)
  show ?thesis
  proof (cases "map_of (t_agents t1) tid")
    case None
    with sim ags show ?thesis by (simp add: agent_turn_def)
  next
    case ag: (Some ag)
    show ?thesis
    proof (cases "map_of (t_states t1) tid")
      case None
      with sim ags sts ag show ?thesis by (simp add: agent_turn_def)
    next
      case st: (Some st)
      show ?thesis
      proof (cases "choose_action ag (fst (rnd tid)) st")
        case (Inl e)
        with sim ags sts ag st show ?thesis by (simp add: agent_turn_def)
      next
        case (Inr r)
        obtain a ag1 where r: "r = (a, ag1)" by (cases r)
        let ?s1 = "traci_setPhase eng tid a (t_sim t1)"
        let ?s2 = "traci_setPhase eng tid a (t_sim t2)"
        have s: "same_run ?s1 ?s2" by (rule same_run_calls(1) [OF sim])
        then have w: "world ?s2 = world ?s1" by (simp add: same_run_def)
        let ?env = "observe eng (world ?s1)"
        show ?thesis
        proof (cases "update_q_table ag1 (snd (rnd tid)) st a (get_reward ?env ag1)
                        (get_state ?env ag1)")
          case (Inl e)
          then show ?thesis
            using s by (simp add: agent_turn_def ags sts ag st Inr r Let_def w)
        next
          case upd: (Inr ag2)
          then show ?thesis
            using s rest
            by (simp add: agent_turn_def ags sts ag st Inr r Let_def w same_training_def)
        qed
      qed
    qed
  qed
qed

lemma agent_turns_rel:
  "same_training t1 t2 \<Longrightarrow>
   rel_sum (rel_prod (=) same_run) same_training
     (fold_err (agent_turn eng rnd) xs t1) (fold_err (agent_turn eng rnd) xs t2)"
  by (rule fold_err_rel) (rule agent_turn_rel)

lemma training_step_rel:
  assumes "same_training t1 t2"
  shows "rel_sum (rel_prod (=) same_run) same_training
           (training_step eng rnd steps step t1) (training_step eng rnd steps step t2)"
proof -
  from assms have sim: "same_run (t_sim t1) (t_sim t2)"
    and w: "world (t_sim t2) = world (t_sim t1)"
    and ags: "t_agents t2 = t_agents t1"
    and stats: "t_stats t2 = t_stats t1"
    by (simp_all add: same_training_def same_run_def)
  let ?vd = "get_vehicle_data (observe eng (world (t_sim t1)))"
  show ?thesis
  proof (cases "collect_stats ?vd (t_stats t1)")
    case (Inl e)
    with sim show ?thesis
      by (simp add: training_step_def Let_def w stats)
  next
    case (Inr st)
    let ?u1 = "t1\<lparr>t_stats := st, t_vehicle_data := Some ?vd\<rparr>"
    let ?u2 = "t2\<lparr>t_stats := st, t_vehicle_data := Some ?vd\<rparr>"
    have "same_training ?u1 ?u2"
      using assms by (simp add: same_training_def)
    then have turns: "rel_sum (rel_prod (=) same_run) same_training
                 (fold_err (agent_turn eng (rnd step)) (map fst (t_agents t1)) ?u1)
                 (fold_err (agent_turn eng (rnd step)) (map fst (t_agents t1)) ?u2)"
      by (rule agent_turns_rel)
    have unfold1: "training_step eng rnd steps step t1 =
        (case fold_err (agent_turn eng (rnd step)) (map fst (t_agents t1)) ?u1 of
           Inl e \<Rightarrow> Inl e
         | Inr t' \<Rightarrow>
             Inr (t'\<lparr>t_sim :=
                    (if (step + 1) mod 10 = 0
                     then py_print (StepProgress (step + 1) steps (length ?vd) (t_total_reward t'))
                            (traci_simulationStep eng (t_sim t'))
                     else traci_simulationStep eng (t_sim t'))\<rparr>))"
      by (simp add: training_step_def Let_def Inr cong: sum.case_cong)
    have unfold2: "training_step eng rnd steps step t2 =
        (case fold_err (agent_turn eng (rnd step)) (map fst (t_agents t1)) ?u2 of
           Inl e \<Rightarrow> Inl e
         | Inr t' \<Rightarrow>
             Inr (t'\<lparr>t_sim :=
                    (if (step + 1) mod 10 = 0
                     then py_print (StepProgress (step + 1) steps (length ?vd) (t_total_reward t'))
                            (traci_simulationStep eng (t_sim t'))
                     else traci_simulationStep eng (t_sim t'))\<rparr>))"
      by (simp add: training_step_def Let_def Inr w stats ags cong: sum.case_cong)
    show ?thesis
    proof (cases "fold_err (agent_turn eng (rnd step)) (map fst (t_agents t1)) ?u1";
           cases "fold_err (agent_turn eng (rnd step)) (map fst (t_agents t1)) ?u2")
      fix a b
      assume ab: "fold_err (agent_turn eng (rnd step)) (map fst (t_agents t1)) ?u1 = Inr a"
        "fold_err (agent_turn eng (rnd step)) (map fst (t_agents t1)) ?u2 = Inr b"
      with turns have st: "same_training a b" by simp
      then have run: "same_run (t_sim a) (t_sim b)" and tr: "t_total_reward b = t_total_reward a"
        by (simp_all add: same_training_def)
      have 1: "same_run (traci_simulationStep eng (t_sim a)) (traci_simulationStep eng (t_sim b))"
        by (rule same_run_calls(2) [OF run])
      have 2: "same_run (py_print m (traci_simulationStep eng (t_sim a)))
                 (py_print m (traci_simulationStep eng (t_sim b)))" for m
        by (rule same_run_calls(3) [OF 1])
      show ?thesis
        unfolding unfold1 unfold2 ab
        using st 1 2 by (simp add: same_training_def)
    next
      fix a b
      assume ab: "fold_err (agent_turn eng (rnd step)) (map fst (t_agents t1)) ?u1 = Inl a"
        "fold_err (agent_turn eng (rnd step)) (map fst (t_agents t1)) ?u2 = Inl b"
      with turns show ?thesis
        unfolding unfold1 unfold2 ab by simp
    next
      fix a b
      assume ab: "fold_err (agent_turn eng (rnd step)) (map fst (t_agents t1)) ?u1 = Inl a"
        "fold_err (agent_turn eng (rnd step)) (map fst (t_agents t1)) ?u2 = Inr b"
      with turns show ?thesis by simp
    next
      fix a b
      assume ab: "fold_err (agent_turn eng (rnd step)) (map fst (t_agents t1)) ?u1 = Inr a"
        "fold_err (agent_turn eng (rnd step)) (map fst (t_agents t1)) ?u2 = Inl b"
      with turns show ?thesis by simp
    qed
  qed
qed

lemma training_steps_rel:
  "same_training t1 t2 \<Longrightarrow>
   rel_sum (rel_prod (=) same_run) same_training
     (fold_err (training_step eng rnd steps) xs t1) (fold_err (training_step eng rnd steps) xs t2)"
  by (rule fold_err_rel) (rule training_step_rel)

lemma training_episode_rel:
  assumes "same_training t1 t2"
  shows "rel_sum (rel_prod (=) same_run) same_training
           (training_episode eng rnd episodes steps episode t1)
           (training_episode eng rnd episodes steps episode t2)"
proof -
  from assms have sim: "same_run (t_sim t1) (t_sim t2)"
    and ags: "t_agents t2 = t_agents t1"
    by (simp_all add: same_training_def)
  let ?a1 = "load_network_state eng ''Input/initial_state.xml''
               (py_print (EpisodeStart (episode + 1) episodes) (t_sim t1))"
  let ?a2 = "load_network_state eng ''Input/initial_state.xml''
               (py_print (EpisodeStart (episode + 1) episodes) (t_sim t2))"
  have a: "same_run ?a1 ?a2"
    by (rule same_run_calls(4) [OF same_run_calls(3) [OF sim]])
  then have w: "world ?a2 = world ?a1" by (simp add: same_run_def)
  let ?sts = "map (\<lambda>(tid, ag). (tid, get_state (observe eng (world ?a1)) ag)) (t_agents t1)"
  let ?u1 = "t1\<lparr>t_sim := ?a1, t_states := ?sts, t_total_reward := 0\<rparr>"
  let ?u2 = "t2\<lparr>t_sim := ?a2, t_states := ?sts, t_total_reward := 0\<rparr>"
  have "same_training ?u1 ?u2"
    using assms a by (simp add: same_training_def)
  then have steps: "rel_sum (rel_prod (=) same_run) same_training
      (fold_err (training_step eng (rnd episode) steps) [0..<steps] ?u1)
      (fold_err (training_step eng (rnd episode) steps) [0..<steps] ?u2)"
    by (rule training_steps_rel)
  have unfold1: "training_episode eng rnd episodes steps episode t1 =
      (case fold_err (training_step eng (rnd episode) steps) [0..<steps] ?u1 of
         Inl e \<Rightarrow> Inl e
       | Inr t' \<Rightarrow>
          (case t_vehicle_data t' of
             None \<Rightarrow> Inl (NameError, t_sim t')
           | Some vd \<Rightarrow>
               Inr (t'\<lparr>t_sim := py_print (EpisodeDone (episode + 1) (t_total_reward t')
                                           (length vd)) (t_sim t')\<rparr>)))"
    by (simp only: training_episode_def Let_def)
  have unfold2: "training_episode eng rnd episodes steps episode t2 =
      (case fold_err (training_step eng (rnd episode) steps) [0..<steps] ?u2 of
         Inl e \<Rightarrow> Inl e
       | Inr t' \<Rightarrow>
          (case t_vehicle_data t' of
             None \<Rightarrow> Inl (NameError, t_sim t')
           | Some vd \<Rightarrow>
               Inr (t'\<lparr>t_sim := py_print (EpisodeDone (episode + 1) (t_total_reward t')
                                           (length vd)) (t_sim t')\<rparr>)))"
    by (simp only: training_episode_def Let_def w ags)
  show ?thesis
  proof (cases "fold_err (training_step eng (rnd episode) steps) [0..<steps] ?u1";
         cases "fold_err (training_step eng (rnd episode) steps) [0..<steps] ?u2")
    fix a b
    assume ab: "fold_err (training_step eng (rnd episode) steps) [0..<steps] ?u1 = Inr a"
      "fold_err (training_step eng (rnd episode) steps) [0..<steps] ?u2 = Inr b"
    with steps have st: "same_training a b" by simp
    then have run: "same_run (t_sim a) (t_sim b)" and tr: "t_total_reward b = t_total_reward a"
      and vd: "t_vehicle_data b = t_vehicle_data a"
      by (simp_all add: same_training_def)
    have 2: "same_run (py_print m (t_sim a)) (py_print m (t_sim b))" for m
      by (rule same_run_calls(3) [OF run])
    show ?thesis
    proof (cases "t_vehicle_data a")
      case None
      with vd have "t_vehicle_data b = None" by simp
      with run show ?thesis
        unfolding unfold1 unfold2 ab by (simp add: None)
    next
      case (Some d)
      with vd have d: "t_vehicle_data b = Some d" by simp
      have "same_training
              (a\<lparr>t_sim := py_print (EpisodeDone (episode + 1) (t_total_reward a) (length d))
                              (t_sim a)\<rparr>)
              (b\<lparr>t_sim := py_print (EpisodeDone (episode + 1) (t_total_reward a) (length d))
                              (t_sim b)\<rparr>)"
        using st 2 by (simp add: same_training_def)
      then show ?thesis
        unfolding unfold1 unfold2 ab by (simp add: Some d tr)
    qed
  next
    fix a b
    assume ab: "fold_err (training_step eng (rnd episode) steps) [0..<steps] ?u1 = Inl a"
      "fold_err (training_step eng (rnd episode) steps) [0..<steps] ?u2 = Inl b"
    with steps show ?thesis
      unfolding unfold1 unfold2 ab by simp
  next
    fix a b
    assume ab: "fold_err (training_step eng (rnd episode) steps) [0..<steps] ?u1 = Inl a"
      "fold_err (training_step eng (rnd episode) steps) [0..<steps] ?u2 = Inr b"
    with steps show ?thesis by simp
  next
    fix a b
    assume ab: "fold_err (training_step eng (rnd episode) steps) [0..<steps] ?u1 = Inr a"
      "fold_err (training_step eng (rnd episode) steps) [0..<steps] ?u2 = Inl b"
    with steps show ?thesis by simp
  qed
qed

lemma training_episodes_rel:
  "same_training t1 t2 \<Longrightarrow>
   rel_sum (rel_prod (=) same_run) same_training
     (fold_err (training_episode eng rnd episodes steps) xs t1)
     (fold_err (training_episode eng rnd episodes steps) xs t2)"
  by (rule fold_err_rel) (rule training_episode_rel)

lemma same_run_prints:
  assumes "world s1 = world s2" and "log s1 = log s2"
    and "filter (\<lambda>e. \<not> is_lane_warning e) (map Print out1)
           = filter (\<lambda>e. \<not> is_lane_warning e) (map Print out2)"
  shows "same_run (fold py_print out1 s1) (fold py_print out2 s2)"
  using assms by (simp add: same_run_def fold_print)

lemma run_qlearning_pruned:
  "fst (run_qlearning (pruned eng) rnd net_file trips_file episodes steps qp s)
     = fst (run_qlearning eng rnd net_file trips_file episodes steps qp s)"
  "same_run (snd (run_qlearning eng rnd net_file trips_file episodes steps qp s))
     (snd (run_qlearning (pruned eng) rnd net_file trips_file episodes steps qp s))"
proof -
  let ?s4 = "save_network_state eng ''Input/initial_state.xml''
               (py_print (TripsLoaded (fst (load_trips eng trips_file
                    (initialize_simulation eng net_file trips_file s))) trips_file)
                  (snd (load_trips eng trips_file
                    (initialize_simulation eng net_file trips_file s))))"
  let ?env = "observe eng (world ?s4)"
  let ?t = "\<lambda>env. \<lparr>t_sim = fold py_print (snd (setup_agents env qp)) ?s4,
                 t_agents = fst (setup_agents env qp), t_states = [], t_stats = new_stats,
                 t_total_reward = 0, t_vehicle_data = None\<rparr>"
  let ?run = "\<lambda>env. fold_err (training_episode eng rnd (nat episodes) (nat steps))
                      [0..<nat episodes] (?t env)"
  have full: "run_qlearning eng rnd net_file trips_file episodes steps qp s =
      (case ?run ?env of
         Inl (e, s') \<Rightarrow> (Inl e, s')
       | Inr t' \<Rightarrow> (Inr (t_stats t'), close_simulation eng (t_sim t')))"
    by (simp add: run_qlearning_def Let_def split_beta)
  have less: "run_qlearning (pruned eng) rnd net_file trips_file episodes steps qp s =
      (case ?run (without_empty ?env) of
         Inl (e, s') \<Rightarrow> (Inl e, s')
       | Inr t' \<Rightarrow> (Inr (t_stats t'), close_simulation eng (t_sim t')))"
    by (simp add: run_qlearning_def Let_def split_beta pruned_adapter pruned_observe
        pruned_training_episode cong: sum.case_cong)
  have "same_run (t_sim (?t ?env)) (t_sim (?t (without_empty ?env)))"
    by (simp add: same_run_prints setup_agents_pruned(2))
  then have "same_training (?t ?env) (?t (without_empty ?env))"
    by (simp add: same_training_def setup_agents_pruned(1))
  then have rel: "rel_sum (rel_prod (=) same_run) same_training
                    (?run ?env) (?run (without_empty ?env))"
    by (rule training_episodes_rel)
  have both: "fst (run_qlearning (pruned eng) rnd net_file trips_file episodes steps qp s)
                = fst (run_qlearning eng rnd net_file trips_file episodes steps qp s)
              \<and> same_run (snd (run_qlearning eng rnd net_file trips_file episodes steps qp s))
                  (snd (run_qlearning (pruned eng) rnd net_file trips_file episodes steps qp s))"
  proof (cases "?run ?env"; cases "?run (without_empty ?env)")
    fix a b
    assume ab: "?run ?env = Inr a" "?run (without_empty ?env) = Inr b"
    with rel have st: "same_training a b" by simp
    then have run: "same_run (t_sim a) (t_sim b)" and "t_stats b = t_stats a"
      by (simp_all add: same_training_def)
    with same_run_calls(5) [OF run, of eng] show ?thesis
      unfolding full less ab by simp
  next
    fix a b
    assume ab: "?run ?env = Inl a" "?run (without_empty ?env) = Inl b"
    with rel have "rel_prod (=) same_run a b" by simp
    then show ?thesis
      unfolding full less ab by (cases a; cases b) simp
  next
    fix a b
    assume ab: "?run ?env = Inl a" "?run (without_empty ?env) = Inr b"
    with rel show ?thesis by simp
  next
    fix a b
    assume ab: "?run ?env = Inr a" "?run (without_empty ?env) = Inl b"
    with rel show ?thesis by simp
  qed
  from both show "fst (run_qlearning (pruned eng) rnd net_file trips_file episodes steps qp s)
     = fst (run_qlearning eng rnd net_file trips_file episodes steps qp s)" ..
  from both show "same_run (snd (run_qlearning eng rnd net_file trips_file episodes steps qp s))
     (snd (run_qlearning (pruned eng) rnd net_file trips_file episodes steps qp s))" ..
qed

text \<open>
  Claim C8, as the code has it. In the setup of \<^verbatim>\<open>run_simulation\<close> and in the setup
  of the grid search, a traffic light whose lane lookup is empty gets no agent, and the
  agents are exactly those of the other traffic lights, the same agents a network without
  the skipped traffic lights gives. \<^verbatim>\<open>run_simulation\<close> prints a warning for each skipped
  traffic light; the grid search prints nothing. Training then proceeds as on the network
  without the skipped traffic lights: the Q-learning run of \<^verbatim>\<open>run_simulation\<close> returns
  the same statistics or raises the same exception, leaves the simulator in the same state
  and makes the same calls and prints in the same order, the warnings apart; the run of
  the grid search is the same altogether.
\<close>

theorem empty_intersections_are_skipped:
  "(tid \<in> set (get_traffic_lights env) \<and> get_controlled_lanes env tid = [] \<longrightarrow>
      map_of (fst (setup_agents env qp)) tid = None
      \<and> NoControlledLanes tid \<in> set (snd (setup_agents env qp))
      \<and> map_of (fst (grid_setup_agents env al ga eps dec)) tid = None)
   \<and> fst ` set (fst (setup_agents env qp))
       = {t \<in> set (get_traffic_lights env). get_controlled_lanes env t \<noteq> []}
   \<and> fst ` set (fst (grid_setup_agents env al ga eps dec))
       = {t \<in> set (get_traffic_lights env). get_controlled_lanes env t \<noteq> []}
   \<and> fst (setup_agents env qp)
       = fst (setup_agents
                (env\<lparr>tl_id_list :=
                       filter (\<lambda>t. get_controlled_lanes env t \<noteq> []) (tl_id_list env)\<rparr>) qp)
   \<and> snd (grid_setup_agents env al ga eps dec) = []
   \<and> fst (run_qlearning eng rnd net_file trips_file episodes steps qp s)
       = fst (run_qlearning (pruned eng) rnd net_file trips_file episodes steps qp s)
   \<and> same_run (snd (run_qlearning eng rnd net_file trips_file episodes steps qp s))
       (snd (run_qlearning (pruned eng) rnd net_file trips_file episodes steps qp s))
   \<and> run_simulation_with_params eng rnd net_file trips_file al ga eps dec episodes steps s
       = run_simulation_with_params (pruned eng) rnd net_file trips_file al ga eps dec
           episodes steps s"
proof -
  have keys: "fst ` set (fst (setup_agents env qp))
       = {t \<in> set (get_traffic_lights env). get_controlled_lanes env t \<noteq> []}"
    using setup_fold_keys [of env qp "get_traffic_lights env" "([], [])"]
    by (simp add: setup_agents_def)
  have gkeys: "fst ` set (fst (grid_setup_agents env al ga eps dec))
       = {t \<in> set (get_traffic_lights env). get_controlled_lanes env t \<noteq> []}"
    and gout: "snd (grid_setup_agents env al ga eps dec) = []"
    using grid_fold [of env al ga eps dec "get_traffic_lights env" "([], [])"]
    by (simp_all add: grid_setup_agents_def)
  have warn: "NoControlledLanes tid \<in> set (snd (setup_agents env qp))"
    if "tid \<in> set (get_traffic_lights env)" "get_controlled_lanes env tid = []"
    unfolding setup_agents_def by (rule setup_fold_warns [OF that])
  have same: "fst (setup_agents env qp)
       = fst (setup_agents
                (env\<lparr>tl_id_list :=
                       filter (\<lambda>t. get_controlled_lanes env t \<noteq> []) (tl_id_list env)\<rparr>) qp)"
    using setup_fold_filter [of env qp "tl_id_list env" "[]" "[]" "[]"]
    by (simp add: setup_agents_def setup_agent_ids get_traffic_lights_def)
  have none: "map_of (fst (setup_agents env qp)) tid = None
      \<and> map_of (fst (grid_setup_agents env al ga eps dec)) tid = None"
    if "get_controlled_lanes env tid = []"
    using that by (simp add: map_of_None_iff keys gkeys)
  have result: "fst (run_qlearning eng rnd net_file trips_file episodes steps qp s)
       = fst (run_qlearning (pruned eng) rnd net_file trips_file episodes steps qp s)"
    by (rule run_qlearning_pruned(1) [symmetric])
  have calls: "same_run (snd (run_qlearning eng rnd net_file trips_file episodes steps qp s))
       (snd (run_qlearning (pruned eng) rnd net_file trips_file episodes steps qp s))"
    by (rule run_qlearning_pruned(2))
  have grid: "run_simulation_with_params eng rnd net_file trips_file al ga eps dec episodes steps s
       = run_simulation_with_params (pruned eng) rnd net_file trips_file al ga eps dec
           episodes steps s"
    by (rule run_simulation_with_params_pruned [symmetric])
  from keys gkeys gout warn same none result calls grid show ?thesis by blast
qed

theorem empty_intersections_are_skipped_witness:
  "map_of (fst (setup_agents demo_env None)) ''B'' = None
   \<and> NoControlledLanes ''B'' \<in> set (snd (setup_agents demo_env None))
   \<and> fst ` set (fst (setup_agents demo_env None)) = {''A''}
   \<and> fst (run_qlearning (pruned still_engine) no_chance ''n'' ''t'' 1 1 None fresh_sim)
       = Inr \<lparr>waiting_times = [14], queue_lengths = [1], vehicle_speeds = [6],
              vehicle_counts = [3], stops_count = [0]\<rparr>"
proof -
  have b: "''B'' \<in> set (get_traffic_lights demo_env) \<and> get_controlled_lanes demo_env ''B'' = []"
    by (simp add: get_traffic_lights_def get_controlled_lanes_def demo_env_def)
  have k: "{t \<in> set (get_traffic_lights demo_env). get_controlled_lanes demo_env t \<noteq> []} = {''A''}"
    by (auto simp: get_traffic_lights_def get_controlled_lanes_def demo_env_def)
  have r: "fst (run_qlearning still_engine no_chance ''n'' ''t'' 1 1 None fresh_sim)
       = Inr \<lparr>waiting_times = [14], queue_lengths = [1], vehicle_speeds = [6],
              vehicle_counts = [3], stops_count = [0]\<rparr>"
    using qlearning_run_demo by (simp add: run_simulation_def)
  from empty_intersections_are_skipped
         [of "''B''" demo_env None _ _ _ _ still_engine no_chance "''n''" "''t''" 1 1 fresh_sim] b
  have "map_of (fst (setup_agents demo_env None)) ''B'' = None"
    and "NoControlledLanes ''B'' \<in> set (snd (setup_agents demo_env None))"
    and "fst ` set (fst (setup_agents demo_env None))
           = {t \<in> set (get_traffic_lights demo_env). get_controlled_lanes demo_env t \<noteq> []}"
    and "fst (run_qlearning still_engine no_chance ''n'' ''t'' 1 1 None fresh_sim)
       = fst (run_qlearning (pruned still_engine) no_chance ''n'' ''t'' 1 1 None fresh_sim)"
    by blast+
  then show ?thesis unfolding k r by simp
qed

theorem empty_intersections_are_skipped_counterexample:
  "''B'' \<in> set (get_traffic_lights demo_env)
   \<and> get_controlled_lanes demo_env ''B'' = []
   \<and> snd (grid_setup_agents demo_env 0.1 0.9 0.2 0.995) = []"
  by (simp add: grid_setup_agents_def grid_setup_agent_def get_traffic_lights_def
      get_controlled_lanes_def get_traffic_light_phases_def demo_env_def new_agent_def Let_def)

end
